theory Spec2Isabelle
  imports Complex_Main
begin

section \<open>AURA browser automation agent (services/automation.py)\<close>

text \<open>
  A shallow embedding of the LLM-guided browser automation agent.  Python names are kept
  without their leading underscore.  Everything the agent reads from outside (the browser
  page, the two model providers, the JSON decoder of the standard library) is an explicit
  argument, and every exception of the source is a value of the model.

  Strings are \<^typ>\<open>string\<close>.  Case mapping, whitespace and lengths follow Python and
  JavaScript on ASCII text; a character outside ASCII stands as the bytes of its UTF-8
  encoding, which \<open>lower\<close> and \<open>upper\<close> leave unchanged and which are never whitespace.
\<close>

subsection \<open>Strings\<close>

definition ascii_uppercase :: string where
  "ascii_uppercase = ''ABCDEFGHIJKLMNOPQRSTUVWXYZ''"

definition ascii_lowercase :: string where
  "ascii_lowercase = ''abcdefghijklmnopqrstuvwxyz''"

definition lower_char :: "char \<Rightarrow> char" where
  "lower_char c =
     (case map_of (zip ascii_uppercase ascii_lowercase) c of Some l \<Rightarrow> l | None \<Rightarrow> c)"

definition upper_char :: "char \<Rightarrow> char" where
  "upper_char c =
     (case map_of (zip ascii_lowercase ascii_uppercase) c of Some u \<Rightarrow> u | None \<Rightarrow> c)"

text \<open>\<open>str.lower()\<close>, and JavaScript's \<open>toLowerCase()\<close> and \<open>toUpperCase()\<close>.\<close>

definition lower :: "string \<Rightarrow> string" where
  "lower s = map lower_char s"

definition upper :: "string \<Rightarrow> string" where
  "upper s = map upper_char s"

text \<open>\<open>s.startswith(k)\<close>.\<close>

fun startswith :: "string \<Rightarrow> string \<Rightarrow> bool" where
  "startswith s [] = True"
| "startswith [] (k # ks) = False"
| "startswith (c # cs) (k # ks) = (c = k \<and> startswith cs ks)"

text \<open>The substring test \<open>kw in s\<close>.\<close>

fun str_in :: "string \<Rightarrow> string \<Rightarrow> bool" where
  "str_in kw [] = (kw = [])"
| "str_in kw (c # cs) = (startswith (c # cs) kw \<or> str_in kw cs)"

text \<open>\<open>sep.join(xs)\<close>.\<close>

fun join :: "string \<Rightarrow> string list \<Rightarrow> string" where
  "join sep [] = []"
| "join sep [x] = x"
| "join sep (x # y # ys) = x @ sep @ join sep (y # ys)"

text \<open>\<open>str(n)\<close> for a non-negative integer: its decimal digits.\<close>

definition digit_char :: "nat \<Rightarrow> char" where
  "digit_char d = ''0123456789'' ! d"

fun str_nat :: "nat \<Rightarrow> string" where
  "str_nat n = (if n < 10 then [digit_char n] else str_nat (n div 10) @ [digit_char (n mod 10)])"

declare str_nat.simps [simp del]

text \<open>
  The characters \<open>str.strip()\<close> removes from ASCII text (\<open>str.isspace\<close>): tab, line feed,
  vertical tab, form feed, carriage return, the four separators \<open>0x1C\<close> to \<open>0x1F\<close>, space.
  JavaScript's \<open>trim()\<close> removes the same without the four separators.
\<close>

definition py_space :: "char \<Rightarrow> bool" where
  "py_space c = (c \<in> set [CHR 0x09, CHR 0x0A, CHR 0x0B, CHR 0x0C, CHR 0x0D,
                            CHR 0x1C, CHR 0x1D, CHR 0x1E, CHR 0x1F, CHR 0x20])"

definition js_space :: "char \<Rightarrow> bool" where
  "js_space c = (c \<in> set [CHR 0x09, CHR 0x0A, CHR 0x0B, CHR 0x0C, CHR 0x0D, CHR 0x20])"

definition strip_with :: "(char \<Rightarrow> bool) \<Rightarrow> string \<Rightarrow> string" where
  "strip_with sp s = rev (dropWhile sp (rev (dropWhile sp s)))"

definition strip :: "string \<Rightarrow> string" where
  "strip = strip_with py_space"

definition trim :: "string \<Rightarrow> string" where
  "trim = strip_with js_space"

definition newline :: string where
  "newline = [CHR 0x0A]"

subsection \<open>Configuration and the Site Router\<close>

definition MAX_LLM_STEPS :: nat where
  "MAX_LLM_STEPS = 20"

record site =
  site_url :: string
  site_name :: string

definition SITE_MAP :: "(string \<times> site) list" where
  "SITE_MAP =
    [(''taxi_booking'', \<lparr>site_url = ''https://m.uber.com/go/pickup'', site_name = ''Uber''\<rparr>),
     (''bus_booking'', \<lparr>site_url = ''https://www.redbus.in/'', site_name = ''RedBus''\<rparr>),
     (''hotel_booking'', \<lparr>site_url = ''https://www.booking.com/'', site_name = ''Booking.com''\<rparr>),
     (''flight_booking'',
        \<lparr>site_url = ''https://www.google.com/travel/flights'', site_name = ''Google Flights''\<rparr>),
     (''restaurant_booking'', \<lparr>site_url = ''https://www.zomato.com/'', site_name = ''Zomato''\<rparr>),
     (''tour_booking'', \<lparr>site_url = ''https://www.google.com/maps'', site_name = ''Google Maps''\<rparr>)]"

text \<open>
  The first statement of \<open>_automate_with_llm\<close>:
  \<open>SITE_MAP.get(intent, {"url": f"https://www.google.com/search?q={destination}+booking",
  "name": "Google"})\<close>.
\<close>

definition site_router :: "string \<Rightarrow> string \<Rightarrow> site" where
  "site_router intent destination =
     (case map_of SITE_MAP intent of
        Some s \<Rightarrow> s
      | None \<Rightarrow> \<lparr>site_url = ''https://www.google.com/search?q='' @ destination @ ''+booking'',
                  site_name = ''Google''\<rparr>)"

definition build_goal :: "string \<Rightarrow> string \<Rightarrow> string \<Rightarrow> string" where
  "build_goal intent destination pickup =
     (let goals =
        [(''taxi_booking'', ''Book a cab from '' @ [CHR 0x27] @ pickup @ [CHR 0x27] @ '' to ''
            @ [CHR 0x27] @ destination @ [CHR 0x27]
            @ ''. Enter pickup, destination, select ride, proceed to payment.''),
         (''bus_booking'', ''Book a bus from '' @ [CHR 0x27] @ pickup @ [CHR 0x27] @ '' to ''
            @ [CHR 0x27] @ destination @ [CHR 0x27]
            @ ''. Enter origin, destination, select date, search, select bus, proceed to payment.''),
         (''hotel_booking'', ''Book a hotel in '' @ [CHR 0x27] @ destination @ [CHR 0x27]
            @ ''. Enter city, dates, search, pick hotel, proceed to payment.''),
         (''flight_booking'', ''Search flights from '' @ [CHR 0x27] @ pickup @ [CHR 0x27] @ '' to ''
            @ [CHR 0x27] @ destination @ [CHR 0x27]
            @ ''. Enter origin, destination, search, select flight, proceed to booking.''),
         (''restaurant_booking'', ''Find '' @ [CHR 0x27] @ destination @ [CHR 0x27]
            @ '' restaurant, add items to cart, proceed to checkout.''),
         (''tour_booking'', ''Search for tours in '' @ [CHR 0x27] @ destination @ [CHR 0x27] @ ''.'')]
      in case map_of goals intent of
           Some g \<Rightarrow> g
         | None \<Rightarrow> ''Complete a booking for '' @ [CHR 0x27] @ destination @ [CHR 0x27]
                     @ '' from '' @ [CHR 0x27] @ pickup @ [CHR 0x27] @ ''.'')"

subsection \<open>The payment heuristic\<close>

definition payment_keywords :: "string list" where
  "payment_keywords =
    [''payment'', ''checkout'', ''pay now'', ''card details'', ''billing'',
     ''credit card'', ''debit card'', ''upi'', ''razorpay'', ''stripe'',
     ''paytm'', ''phonepe'', ''confirm booking'', ''proceed to pay'']"

definition is_payment_page :: "string \<Rightarrow> string \<Rightarrow> bool" where
  "is_payment_page url title =
     (let combined = lower (url @ '' '' @ title)
      in list_ex (\<lambda>kw. str_in kw combined) payment_keywords)"

subsection \<open>Parsed JSON values and Python exceptions\<close>

text \<open>
  What \<open>json.loads\<close> and \<open>resp.json()\<close> return.  An object is an association list read
  with \<open>map_of\<close>; \<open>JFloat\<close> stands for the finite floats.
\<close>

datatype json =
    JNull
  | JBool bool
  | JInt int
  | JFloat real
  | JStr string
  | JArr "json list"
  | JObj "(string \<times> json) list"

datatype exn =
    JSONDecodeError
  | RecursionError
  | ValueError
  | AttributeError
  | TypeError
  | RequestException
  | IndexError
  | PlaywrightError

text \<open>\<open>d.get(key, default)\<close> on a dictionary.\<close>

definition dict_get :: "(string \<times> json) list \<Rightarrow> string \<Rightarrow> json \<Rightarrow> json" where
  "dict_get d key dflt = (case map_of d key of Some v \<Rightarrow> v | None \<Rightarrow> dflt)"

subsection \<open>The provider chain: \<open>_call_llm\<close>\<close>

text \<open>
  A provider is what \<open>requests.post\<close> does for a prompt: it raises (network error, timeout)
  or returns a response, whose \<open>resp.json()\<close> raises or returns a value.
\<close>

record http_response =
  status_code :: int
  resp_json :: "exn + json"

type_synonym provider = "string \<Rightarrow> exn + http_response"

text \<open>\<open>resp.json()["choices"][0]["message"]["content"]\<close> followed by \<open>len(content)\<close> and
  \<open>content.strip()\<close>: \<open>None\<close> when any of them raises.\<close>

fun groq_content :: "json \<Rightarrow> string option" where
  "groq_content (JObj body) =
     (case map_of body ''choices'' of
        Some (JArr (JObj choice # _)) \<Rightarrow>
          (case map_of choice ''message'' of
             Some (JObj message) \<Rightarrow>
               (case map_of message ''content'' of
                  Some (JStr content) \<Rightarrow> Some (strip content)
                | _ \<Rightarrow> None)
           | _ \<Rightarrow> None)
      | _ \<Rightarrow> None)"
| "groq_content _ = None"

text \<open>The body of the first \<open>try\<close>: \<open>Some\<close> is the value returned from inside it, \<open>None\<close>
  means that control reached the Ollama fallback (status not 200, or an exception caught).\<close>

definition try_groq :: "exn + http_response \<Rightarrow> string option" where
  "try_groq outcome =
     (case outcome of
        Inl e \<Rightarrow> None
      | Inr resp \<Rightarrow>
          if status_code resp = 200
          then (case resp_json resp of Inl e \<Rightarrow> None | Inr body \<Rightarrow> groq_content body)
          else None)"

text \<open>\<open>resp.json().get("response", "").strip()\<close>: \<open>None\<close> when it raises.\<close>

fun ollama_response :: "json \<Rightarrow> string option" where
  "ollama_response (JObj body) =
     (case dict_get body ''response'' (JStr []) of
        JStr r \<Rightarrow> Some (strip r)
      | _ \<Rightarrow> None)"
| "ollama_response _ = None"

definition try_ollama :: "exn + http_response \<Rightarrow> string option" where
  "try_ollama outcome =
     (case outcome of
        Inl e \<Rightarrow> None
      | Inr resp \<Rightarrow>
          if status_code resp = 200
          then (case resp_json resp of Inl e \<Rightarrow> None | Inr body \<Rightarrow> ollama_response body)
          else None)"

definition llm_unavailable :: string where
  \<open>llm_unavailable = ''{"action": "wait", "reason": "LLM unavailable"}''\<close>

text \<open>\<open>api_key\<close> is \<open>config.GROQ_API_KEY\<close>, read from the process environment.\<close>

definition call_llm :: "string \<Rightarrow> provider \<Rightarrow> provider \<Rightarrow> string \<Rightarrow> string" where
  "call_llm api_key groq ollama prompt =
     (case (if api_key \<noteq> [] then try_groq (groq prompt) else None) of
        Some content \<Rightarrow> content
      | None \<Rightarrow>
          (case try_ollama (ollama prompt) of
             Some r \<Rightarrow> r
           | None \<Rightarrow> llm_unavailable))"

subsection \<open>The Decision Engine: \<open>_ask_llm_action\<close>\<close>

text \<open>
  \<open>re.search(r'\{[^}]+\}', response)\<close>: the leftmost match.  At an opening brace the
  greedy class takes every character up to the next closing brace (a line feed and another
  opening brace included); the match needs at least one such character and the closing brace.
\<close>

definition match_braces :: "string \<Rightarrow> string option" where
  "match_braces s =
     (let body = takeWhile (\<lambda>c. c \<noteq> CHR ''}'') s;
          rest = dropWhile (\<lambda>c. c \<noteq> CHR ''}'') s
      in if body \<noteq> [] \<and> rest \<noteq> [] then Some (CHR ''{'' # body @ ''}'') else None)"

fun re_search :: "string \<Rightarrow> string option" where
  "re_search [] = None"
| "re_search (c # cs) =
     (if c = CHR ''{''
      then (case match_braces cs of Some m \<Rightarrow> Some m | None \<Rightarrow> re_search cs)
      else re_search cs)"

text \<open>\<open>history[-5:]\<close>.\<close>

definition last5 :: "'a list \<Rightarrow> 'a list" where
  "last5 xs = drop (length xs - 5) xs"

definition build_prompt :: "string \<Rightarrow> string \<Rightarrow> string \<Rightarrow> string \<Rightarrow> string list \<Rightarrow> string" where
  \<open>build_prompt elements_text goal page_url page_title history =
     (let history_text = (if history \<noteq> [] then join newline (last5 history) else ''None yet'')
      in ''You are a browser automation agent. Goal: '' @ goal @ newline
       @ newline
       @ ''Page: '' @ page_title @ '' ('' @ page_url @ '')'' @ newline
       @ ''Previous actions: '' @ history_text @ newline
       @ newline
       @ ''Interactive elements:'' @ newline
       @ elements_text @ newline
       @ newline
       @ ''Reply with ONLY a JSON object for the NEXT action:'' @ newline
       @ ''- Click: {"action":"click","element":<num>,"reason":"why"}'' @ newline
       @ ''- Type: {"action":"type","element":<num>,"text":"value","reason":"why"}'' @ newline
       @ ''- Press Enter: {"action":"press_enter","reason":"why"}'' @ newline
       @ ''- Scroll: {"action":"scroll","reason":"why"}'' @ newline
       @ ''- Done (at payment): {"action":"done","reason":"At payment page"}'' @ newline
       @ ''- Wait: {"action":"wait","reason":"why"}'' @ newline
       @ newline
       @ ''Rules: Fill origin/destination inputs first, then search. If the pickup/origin is "my current location", look for a "Current location" button or type "Current location" to let the site use geolocation. If you see payment/checkout/card fields, respond done. Pick ONE action.'')\<close>

definition parse_error :: json where
  "parse_error = JObj [(''action'', JStr ''wait''), (''reason'', JStr ''Parse error'')]"

text \<open>
  The \<open>try\<close> statement that ends \<open>_ask_llm_action\<close>.  \<open>json_loads\<close> is \<open>json.loads\<close> of
  the standard library.  The outer handler catches \<open>json.JSONDecodeError\<close> only, so any other
  exception of the decoder leaves the function; the inner handler is a bare \<open>except\<close>.
\<close>

definition parse_reply :: "(string \<Rightarrow> exn + json) \<Rightarrow> string \<Rightarrow> exn + json" where
  "parse_reply json_loads response =
     (case json_loads response of
        Inr action \<Rightarrow> Inr action
      | Inl JSONDecodeError \<Rightarrow>
          (case re_search response of
             Some m \<Rightarrow>
               (case json_loads m of
                  Inr action \<Rightarrow> Inr action
                | Inl e \<Rightarrow> Inr parse_error)
           | None \<Rightarrow> Inr parse_error)
      | Inl e \<Rightarrow> Inl e)"

definition ask_llm_action ::
  "(string \<Rightarrow> exn + json) \<Rightarrow> string \<Rightarrow> provider \<Rightarrow> provider
     \<Rightarrow> string \<Rightarrow> string \<Rightarrow> string \<Rightarrow> string \<Rightarrow> string list \<Rightarrow> exn + json" where
  "ask_llm_action json_loads api_key groq ollama elements_text goal page_url page_title history =
     (let prompt = build_prompt elements_text goal page_url page_title history;
          response = call_llm api_key groq ollama prompt
      in parse_reply json_loads response)"

subsection \<open>The Page Element Extractor: \<open>_get_page_elements\<close>\<close>

text \<open>
  A candidate element of the live page with what the script reads from it:
  \<open>getBoundingClientRect()\<close>, \<open>getComputedStyle\<close>, \<open>tagName\<close>, \<open>getAttribute\<close> (\<open>None\<close> is
  \<open>null\<close>), \<open>textContent\<close> and \<open>value\<close> (\<open>None\<close> is \<open>null\<close> or \<open>undefined\<close>).  Of the
  rectangle only the comparison of its sides with zero is used.  A document on which the
  script throws (an element whose \<open>value\<close> is a number has no \<open>substring\<close>) is a
  \<open>page.evaluate\<close> that raises.
\<close>

record dom_element =
  rect_width :: real
  rect_height :: real
  style_display :: string
  style_visibility :: string
  style_opacity :: string
  tagName :: string
  attr_id :: "string option"
  attr_placeholder :: "string option"
  attr_aria_label :: "string option"
  attr_name :: "string option"
  attr_type :: "string option"
  attr_role :: "string option"
  textContent :: "string option"
  dom_value :: "string option"

text \<open>One entry of the list the script returns (a dictionary with these twelve keys).\<close>

record page_element =
  el_index :: nat
  el_tag :: string
  el_type :: string
  el_role :: string
  el_id :: string
  el_name :: string
  el_placeholder :: string
  el_ariaLabel :: string
  el_text :: string
  el_value :: string
  el_desc :: string
  el_label :: string

definition selectors :: "string list" where
  \<open>selectors =
    [''input:not([type="hidden"])'', ''button'', ''a[href]'', ''select'',
     ''textarea'', ''[role="button"]'', ''[role="link"]'', ''[role="option"]'',
     ''[role="combobox"]'', ''[role="listbox"]'', ''[role="tab"]'',
     ''[contenteditable="true"]'']\<close>

text \<open>\<open>x || ''\<close> on an attribute, and \<open>a || b\<close> on two strings.\<close>

definition or_empty :: "string option \<Rightarrow> string" where
  "or_empty x = (case x of None \<Rightarrow> [] | Some s \<Rightarrow> s)"

definition js_or :: "string \<Rightarrow> string \<Rightarrow> string" where
  "js_or a b = (if a \<noteq> [] then a else b)"

definition dedup_key :: "dom_element \<Rightarrow> string" where
  "dedup_key el =
     lower (tagName el) @ ''|'' @ or_empty (attr_id el) @ ''|''
       @ take 50 (trim (or_empty (textContent el))) @ ''|'' @ or_empty (attr_placeholder el)"

text \<open>The object pushed onto \<open>results\<close>; \<open>n\<close> is \<open>results.length\<close> at that moment.\<close>

definition make_element :: "dom_element \<Rightarrow> nat \<Rightarrow> page_element" where
  "make_element el n =
     (let tag = lower (tagName el);
          ident = or_empty (attr_id el);
          text = take 50 (trim (or_empty (textContent el)));
          placeholder = or_empty (attr_placeholder el);
          ariaLabel = or_empty (attr_aria_label el);
          name = or_empty (attr_name el);
          type = or_empty (attr_type el);
          role = or_empty (attr_role el);
          val = or_empty (dom_value el);
          desc = upper tag @ (if type \<noteq> [] then ''['' @ type @ '']'' else []);
          label = take 60 (js_or ariaLabel (js_or placeholder (js_or text (js_or name (js_or ident [])))))
      in \<lparr>el_index = n, el_tag = tag, el_type = type, el_role = role, el_id = ident,
          el_name = name, el_placeholder = placeholder, el_ariaLabel = ariaLabel,
          el_text = take 50 text, el_value = take 30 val, el_desc = desc, el_label = label\<rparr>)"

record scan_state =
  results :: "page_element list"
  seen :: "string list"

text \<open>The inner loop over \<open>document.querySelectorAll(selector)\<close>, with its \<open>continue\<close>s
  and its \<open>break\<close>.\<close>

fun scan_selector :: "dom_element list \<Rightarrow> scan_state \<Rightarrow> scan_state" where
  "scan_selector [] st = st"
| "scan_selector (el # els) st =
     (if rect_width el = 0 \<or> rect_height el = 0 then scan_selector els st
      else if style_display el = ''none'' \<or> style_visibility el = ''hidden''
              \<or> style_opacity el = ''0'' then scan_selector els st
      else if dedup_key el \<in> set (seen st) then scan_selector els st
      else if 35 \<le> Suc (length (results st))
        then \<lparr>results = results st @ [make_element el (length (results st))],
              seen = dedup_key el # seen st\<rparr>
        else scan_selector els
               \<lparr>results = results st @ [make_element el (length (results st))],
                seen = dedup_key el # seen st\<rparr>)"

text \<open>The outer loop over the selectors, with its own \<open>break\<close>.\<close>

fun scan_page :: "(string \<Rightarrow> dom_element list) \<Rightarrow> string list \<Rightarrow> scan_state \<Rightarrow> scan_state" where
  "scan_page query [] st = st"
| "scan_page query (selector # rest) st =
     (if 35 \<le> length (results (scan_selector (query selector) st))
      then scan_selector (query selector) st
      else scan_page query rest (scan_selector (query selector) st))"

definition element_line :: "page_element \<Rightarrow> string" where
  \<open>element_line el =
     ''['' @ str_nat (el_index el) @ ''] '' @ el_desc el
       @ (if el_label el \<noteq> [] then '' "'' @ el_label el @ ''"'' else [])
       @ (if el_value el \<noteq> [] then '' (value: "'' @ el_value el @ ''")'' else [])\<close>

text \<open>
  \<open>evaluate\<close> is the outcome of \<open>page.evaluate\<close>: it raises, or the script runs on the
  document, given by what \<open>querySelectorAll\<close> returns for each selector.
\<close>

definition get_page_elements ::
  "exn + (string \<Rightarrow> dom_element list) \<Rightarrow> page_element list \<times> string" where
  "get_page_elements evaluate =
     (case evaluate of
        Inl e \<Rightarrow> ([], [])
      | Inr query \<Rightarrow>
          (let elements = results (scan_page query selectors \<lparr>results = [], seen = []\<rparr>)
           in (elements, join newline (map element_line elements))))"

subsection \<open>The browser page\<close>

datatype locator =
    ById string
  | ByLabel string
  | ByPlaceholder string
  | ByText string
  | ByName string string
  | ByTag string

text \<open>
  What the page does with each call the agent makes during one step.  A call that returns
  nothing is an \<open>exn option\<close>: \<open>None\<close> when it returns, \<open>Some e\<close> when it raises \<open>e\<close>.
  \<open>strategy_found\<close> says whether a locator strategy and its \<open>wait_for(state="visible")\<close>
  return without raising.
\<close>

record page =
  page_evaluate :: "exn + (string \<Rightarrow> dom_element list)"
  page_url :: "exn + string"
  page_title :: "exn + string"
  mouse_wheel :: "exn option"
  keyboard_press :: "string \<Rightarrow> exn option"
  keyboard_type :: "string \<Rightarrow> exn option"
  strategy_found :: "locator \<Rightarrow> bool"
  locator_click :: "locator \<Rightarrow> exn option"
  locator_fill :: "locator \<Rightarrow> exn option"

text \<open>The calls made on the page and the clock, in order; sleeps are in milliseconds.\<close>

datatype effect =
    Sleep nat
  | MouseWheel int int
  | KeyPress string
  | KeyType json
  | Click locator
  | Fill locator

text \<open>A sequence of calls inside one \<open>try\<close>: it stops at the first call that raises.\<close>

fun perform :: "(effect \<times> exn option) list \<Rightarrow> effect list \<times> exn option" where
  "perform [] = ([], None)"
| "perform ((eff, None) # rest) = (eff # fst (perform rest), snd (perform rest))"
| "perform ((eff, Some e) # rest) = ([eff], Some e)"

subsection \<open>The Action Executor: \<open>_build_locator\<close> and \<open>_execute_action\<close>\<close>

definition build_locator :: "page \<Rightarrow> page_element \<Rightarrow> locator" where
  "build_locator pg el_info =
     (let strategies =
            (if el_id el_info \<noteq> [] then [ById (el_id el_info)] else [])
          @ (if el_ariaLabel el_info \<noteq> [] then [ByLabel (el_ariaLabel el_info)] else [])
          @ (if el_placeholder el_info \<noteq> [] then [ByPlaceholder (el_placeholder el_info)] else [])
          @ (if el_text el_info \<noteq> [] \<and> el_tag el_info \<in> set [''button'', ''a'']
             then [ByText (el_text el_info)] else [])
          @ (if el_name el_info \<noteq> [] then [ByName (el_tag el_info) (el_name el_info)] else [])
      in case filter (strategy_found pg) strategies of
           loc # _ \<Rightarrow> loc
         | [] \<Rightarrow> ByTag (el_tag el_info))"

text \<open>
  \<open>idx < 0 or idx >= len(elements)\<close> on a parsed value: integers, booleans (as 0 and 1) and
  floats compare with an integer, every other value raises \<open>TypeError\<close>.
\<close>

fun index_invalid :: "json \<Rightarrow> nat \<Rightarrow> exn + bool" where
  "index_invalid (JInt i) n = Inr (i < 0 \<or> int n \<le> i)"
| "index_invalid (JBool b) n = Inr (n \<le> (if b then 1 else 0))"
| "index_invalid (JFloat r) n = Inr (r < 0 \<or> real n \<le> r)"
| "index_invalid _ n = Inl TypeError"

text \<open>\<open>elements[idx]\<close>: a negative integer counts from the end, a float is no index.\<close>

fun subscript :: "'a list \<Rightarrow> json \<Rightarrow> exn + 'a" where
  "subscript xs (JInt i) =
     (if 0 \<le> i \<and> i < int (length xs) then Inr (xs ! nat i)
      else if i < 0 \<and> - int (length xs) \<le> i then Inr (xs ! nat (int (length xs) + i))
      else Inl IndexError)"
| "subscript xs (JBool b) =
     (if (if b then 1 else 0) < length xs then Inr (xs ! (if b then 1 else 0)) else Inl IndexError)"
| "subscript xs _ = Inl TypeError"

text \<open>The \<open>try\<close> block of \<open>_execute_action\<close>: the calls it makes and the exception it ends
  with, if any.  \<open>page.keyboard.type\<close> takes a string and raises on any other value.\<close>

definition interact ::
  "page \<Rightarrow> json \<Rightarrow> (string \<times> json) list \<Rightarrow> page_element \<Rightarrow> effect list \<times> exn option" where
  "interact pg action_type action el_info =
     (let loc = build_locator pg el_info
      in if action_type = JStr ''click''
         then perform [(Click loc, locator_click pg loc), (Sleep 2000, None)]
         else if action_type = JStr ''type''
         then (let text = dict_get action ''text'' (JStr [])
               in perform
                    [(Click loc, locator_click pg loc), (Sleep 300, None),
                     (Fill loc, locator_fill pg loc), (Sleep 200, None),
                     (KeyType text,
                        (case text of JStr t \<Rightarrow> keyboard_type pg t | _ \<Rightarrow> Some TypeError)),
                     (Sleep 2000, None)])
         else ([], None))"

text \<open>
  The result is the list of calls made and either the exception that leaves the function or
  the returned flag: \<open>False\<close> to stop, \<open>True\<close> to continue.
\<close>

definition execute_action ::
  "page \<Rightarrow> (string \<times> json) list \<Rightarrow> page_element list \<Rightarrow> effect list \<times> (exn + bool)" where
  "execute_action pg action elements =
     (let action_type = dict_get action ''action'' (JStr ''wait'')
      in if action_type = JStr ''done'' then ([], Inr False)
         else if action_type = JStr ''wait'' then ([Sleep 2000], Inr True)
         else if action_type = JStr ''scroll'' then
           (case mouse_wheel pg of
              Some e \<Rightarrow> ([MouseWheel 0 400], Inl e)
            | None \<Rightarrow> ([MouseWheel 0 400, Sleep 1000], Inr True))
         else if action_type = JStr ''press_enter'' then
           (case keyboard_press pg ''Enter'' of
              Some e \<Rightarrow> ([KeyPress ''Enter''], Inl e)
            | None \<Rightarrow> ([KeyPress ''Enter'', Sleep 2000], Inr True))
         else
           (let idx = dict_get action ''element'' (JInt (- 1))
            in case index_invalid idx (length elements) of
                 Inl e \<Rightarrow> ([], Inl e)
               | Inr True \<Rightarrow> ([Sleep 1000], Inr True)
               | Inr False \<Rightarrow>
                   (case subscript elements idx of
                      Inl e \<Rightarrow> ([], Inl e)
                    | Inr el_info \<Rightarrow>
                        (case interact pg action_type action el_info of
                           (effs, None) \<Rightarrow> (effs, Inr True)
                         | (effs, Some e) \<Rightarrow>
                             (effs @ fst (perform [(KeyPress ''Tab'', keyboard_press pg ''Tab''),
                                                   (Sleep 500, None)]),
                              Inr True)))))"

text \<open>The calls that touch an element of the page.\<close>

fun element_interaction :: "effect \<Rightarrow> bool" where
  "element_interaction (Click loc) = True"
| "element_interaction (Fill loc) = True"
| "element_interaction (KeyType text) = True"
| "element_interaction _ = False"

subsection \<open>The Control Loop: \<open>_automate_with_llm\<close>\<close>

text \<open>
  The platform the agent runs on: \<open>json.loads\<close>, the built-in \<open>str\<close> on parsed values (used
  by the history line) and \<open>config.GROQ_API_KEY\<close>.
\<close>

record platform =
  json_loads :: "string \<Rightarrow> exn + json"
  py_str :: "json \<Rightarrow> string"
  GROQ_API_KEY :: string

text \<open>What the agent meets during one iteration: the page and the two providers.\<close>

record surroundings =
  page :: page
  groq_api :: provider
  ollama_api :: provider

text \<open>The loop variable and the two locals \<open>waits\<close> and \<open>history\<close>.\<close>

record session =
  step :: nat
  waits :: nat
  history :: "string list"

text \<open>
  How the run ends: the three \<open>break\<close>s of the loop (payment page detected, the executor
  returned \<open>False\<close>, too many waits), the end of \<open>range(MAX_LLM_STEPS)\<close>, or an exception
  caught by the \<open>except Exception\<close> around the loop.
\<close>

datatype stop_reason =
    PaymentDetected
  | DoneSignal
  | RepeatedWaitAbort
  | StepBudgetExhausted
  | AutomationError exn

datatype iteration = Continue session | Break stop_reason session

definition history_line :: "platform \<Rightarrow> nat \<Rightarrow> (string \<times> json) list \<Rightarrow> string" where
  "history_line P step_no llm_action =
     ''Step '' @ str_nat (step_no + 1) @ '': '' @ py_str P (dict_get llm_action ''action'' (JStr ''?''))
       @ '' - '' @ py_str P (dict_get llm_action ''reason'' (JStr ''?''))"

text \<open>
  The \<open>try\<close> that reads \<open>page.url\<close> and \<open>page.title()\<close>; its bare \<open>except\<close> sets both
  to \<open>"unknown"\<close>.
\<close>

definition read_location :: "page \<Rightarrow> string \<times> string" where
  "read_location pg =
     (case page_url pg of
        Inl e \<Rightarrow> (''unknown'', ''unknown'')
      | Inr url \<Rightarrow>
          (case page_title pg of
             Inl e \<Rightarrow> (''unknown'', ''unknown'')
           | Inr title \<Rightarrow> (url, title)))"

text \<open>
  One pass through the body of the \<open>for\<close> loop.  \<open>llm_action.get\<close> raises
  \<open>AttributeError\<close> when the parsed reply is not a dictionary.
\<close>

definition loop_body :: "platform \<Rightarrow> string \<Rightarrow> surroundings \<Rightarrow> session \<Rightarrow> iteration" where
  "loop_body P goal w s =
     (case get_page_elements (page_evaluate (page w)) of (elements, elements_text) \<Rightarrow>
        if elements_text = [] then Continue s
        else
          (case read_location (page w) of (url, title) \<Rightarrow>
             if is_payment_page url title then Break PaymentDetected s
             else
               (case ask_llm_action (json_loads P) (GROQ_API_KEY P) (groq_api w) (ollama_api w)
                       elements_text goal url title (history s) of
                  Inl e \<Rightarrow> Break (AutomationError e) s
                | Inr (JObj llm_action) \<Rightarrow>
                    (let s1 = s\<lparr>history := history s @ [history_line P (step s) llm_action]\<rparr>
                     in case snd (execute_action (page w) llm_action elements) of
                          Inl e \<Rightarrow> Break (AutomationError e) s1
                        | Inr False \<Rightarrow> Break DoneSignal s1
                        | Inr True \<Rightarrow>
                            if map_of llm_action ''action'' = Some (JStr ''wait'')
                            then (if 3 \<le> waits s1 + 1
                                  then Break RepeatedWaitAbort (s1\<lparr>waits := waits s1 + 1\<rparr>)
                                  else Continue (s1\<lparr>waits := waits s1 + 1\<rparr>))
                            else Continue (s1\<lparr>waits := 0\<rparr>))
                | Inr other \<Rightarrow> Break (AutomationError AttributeError) s)))"

record outcome =
  reason :: stop_reason
  iterations :: nat
  final :: session

text \<open>
  \<open>for step in range(MAX_LLM_STEPS)\<close>, from the iteration \<open>step s\<close> on.  \<open>iterations\<close>
  counts the passes through the body that were started.
\<close>

function for_loop :: "platform \<Rightarrow> string \<Rightarrow> (nat \<Rightarrow> surroundings) \<Rightarrow> session \<Rightarrow> outcome" where
  "for_loop P goal world s =
     (if step s < MAX_LLM_STEPS
      then (case loop_body P goal (world (step s)) s of
              Continue s' \<Rightarrow> for_loop P goal world (s'\<lparr>step := step s + 1\<rparr>)
            | Break r s' \<Rightarrow> \<lparr>reason = r, iterations = step s + 1, final = s'\<rparr>)
      else \<lparr>reason = StepBudgetExhausted, iterations = step s, final = s\<rparr>)"
  by pat_completeness auto
termination
  by (relation "measure (\<lambda>(P, goal, world, s). MAX_LLM_STEPS - step s)") auto

declare for_loop.simps [simp del]

text \<open>\<open>history = []\<close>, \<open>waits = 0\<close>, and the loop from its first iteration.\<close>

definition new_session :: session where
  "new_session = \<lparr>step = 0, waits = 0, history = []\<rparr>"

definition control_loop :: "platform \<Rightarrow> string \<Rightarrow> (nat \<Rightarrow> surroundings) \<Rightarrow> outcome" where
  "control_loop P goal world = for_loop P goal world new_session"

text \<open>
  The whole run after the browser is launched: \<open>goto\<close> is the outcome of \<open>page.goto\<close> on
  the routed URL.  Dismissing the popups swallows every exception and the keep-alive phase
  follows every ending, so neither changes how the run ends.
\<close>

definition automate_with_llm ::
  "platform \<Rightarrow> (string \<Rightarrow> exn option) \<Rightarrow> (nat \<Rightarrow> surroundings)
     \<Rightarrow> string \<Rightarrow> string \<Rightarrow> string \<Rightarrow> outcome" where
  "automate_with_llm P goto world intent destination pickup =
     (let site = site_router intent destination;
          goal = build_goal intent destination pickup
      in case goto (site_url site) of
           Some e \<Rightarrow> \<lparr>reason = AutomationError e, iterations = 0, final = new_session\<rparr>
         | None \<Rightarrow> control_loop P goal world)"

text \<open>
  The session at the start of iteration \<open>k\<close> of a run, when the run gets that far.
\<close>

fun session_at ::
  "platform \<Rightarrow> string \<Rightarrow> (nat \<Rightarrow> surroundings) \<Rightarrow> nat \<Rightarrow> session option" where
  "session_at P goal world 0 = Some new_session"
| "session_at P goal world (Suc k) =
     (case session_at P goal world k of
        None \<Rightarrow> None
      | Some s \<Rightarrow>
          if k < MAX_LLM_STEPS
          then (case loop_body P goal (world k) s of
                  Continue s' \<Rightarrow> Some (s'\<lparr>step := k + 1\<rparr>)
                | Break r s' \<Rightarrow> None)
          else None)"

subsection \<open>Vocabulary of the properties\<close>

text \<open>
  A provider fails for \<open>_call_llm\<close> when the request raises or the status is not 200 (every
  non-success status is among these).
\<close>

definition provider_fails :: "exn + http_response \<Rightarrow> bool" where
  "provider_fails outcome =
     (case outcome of Inl e \<Rightarrow> True | Inr resp \<Rightarrow> status_code resp \<noteq> 200)"

text \<open>An extracted element comes from a candidate whose rectangle has no zero side.\<close>

definition came_from :: "dom_element list \<Rightarrow> page_element \<Rightarrow> bool" where
  "came_from els e =
     list_ex (\<lambda>el. rect_width el \<noteq> 0 \<and> rect_height el \<noteq> 0
                   \<and> e = make_element el (el_index e)) els"

text \<open>The iteration takes the \<open>continue\<close> of an empty extraction.\<close>

definition nothing_extracted :: "surroundings \<Rightarrow> bool" where
  "nothing_extracted w = (snd (get_page_elements (page_evaluate (page w))) = [])"

text \<open>
  What an iteration of the loop does, seen from outside.  \<open>reaches_decision\<close>: the extraction
  is not empty and the page is no payment page, so the Decision Engine is asked.  \<open>decided\<close>
  is its answer.  \<open>executed\<close> is the action of an iteration that asked the engine, got a
  dictionary and executed it with the continue signal.
\<close>

definition reaches_decision :: "surroundings \<Rightarrow> bool" where
  "reaches_decision w =
     (snd (get_page_elements (page_evaluate (page w))) \<noteq> []
      \<and> \<not> is_payment_page (fst (read_location (page w))) (snd (read_location (page w))))"

definition decided :: "platform \<Rightarrow> string \<Rightarrow> surroundings \<Rightarrow> session \<Rightarrow> exn + json" where
  "decided P goal w s =
     ask_llm_action (json_loads P) (GROQ_API_KEY P) (groq_api w) (ollama_api w)
       (snd (get_page_elements (page_evaluate (page w)))) goal
       (fst (read_location (page w))) (snd (read_location (page w))) (history s)"

definition executed ::
  "platform \<Rightarrow> string \<Rightarrow> surroundings \<Rightarrow> session \<Rightarrow> (string \<times> json) list option" where
  "executed P goal w s =
     (if reaches_decision w
      then (case decided P goal w s of
              Inr (JObj a) \<Rightarrow>
                if snd (execute_action (page w) a (fst (get_page_elements (page_evaluate (page w)))))
                     = Inr True
                then Some a else None
            | _ \<Rightarrow> None)
      else None)"

definition is_wait :: "(string \<times> json) list \<Rightarrow> bool" where
  "is_wait a = (map_of a ''action'' = Some (JStr ''wait''))"

text \<open>
  An iteration that does not end the run: nothing was extracted, or an action was executed
  with the continue signal and it is not the wait that brings the counter to three.
\<close>

definition continues :: "platform \<Rightarrow> string \<Rightarrow> surroundings \<Rightarrow> session \<Rightarrow> bool" where
  "continues P goal w s =
     (nothing_extracted w
      \<or> (case executed P goal w s of
            None \<Rightarrow> False
          | Some a \<Rightarrow> \<not> (is_wait a \<and> 2 \<le> waits s)))"

text \<open>The dictionary that \<open>json.loads\<close> makes of the text \<open>llm_unavailable\<close>.\<close>

definition wait_unavailable :: json where
  "wait_unavailable = JObj [(''action'', JStr ''wait''), (''reason'', JStr ''LLM unavailable'')]"

subsection \<open>Example replies, providers, pages and runs\<close>

text \<open>
  Replies with the values \<open>json.loads\<close> makes of them, and a decoder that agrees with
  \<open>json.loads\<close> on them: it rejects prose, and on a hundred thousand opening brackets, alone
  or as the value of a key, it raises \<open>RecursionError\<close>, as the decoder of CPython does (from
  about a thousand brackets on, under the default recursion limit).
\<close>

definition deep_reply :: string where
  "deep_reply = replicate 100000 (CHR ''['')"

text \<open>The same brackets as the value of a key, and that object behind a word of prose.\<close>

definition deep_object :: string where
  \<open>deep_object = CHR ''{'' # (''"a":'' @ replicate 100000 (CHR ''['')) @ ''}''\<close>

definition deep_prose :: string where
  "deep_prose = ''x '' @ deep_object"

definition prose_reply :: string where
  \<open>prose_reply = ''Sure! {"action":"click","element":2,"reason":"go"} ok''\<close>

definition wait_reply :: string where
  \<open>wait_reply = ''{"action":"wait","reason":"loading"}''\<close>

definition scroll_reply :: string where
  \<open>scroll_reply = ''{"action":"scroll","reason":"more"}''\<close>

definition wait_action :: "(string \<times> json) list" where
  "wait_action = [(''action'', JStr ''wait''), (''reason'', JStr ''loading'')]"

definition scroll_action :: "(string \<times> json) list" where
  "scroll_action = [(''action'', JStr ''scroll''), (''reason'', JStr ''more'')]"

definition click_reply :: string where
  \<open>click_reply = ''{"action":"click","element":2,"reason":"go"}''\<close>

definition click_action :: json where
  "click_action = JObj [(''action'', JStr ''click''), (''element'', JInt 2), (''reason'', JStr ''go'')]"

definition example_decoder :: "string \<Rightarrow> exn + json" where
  \<open>example_decoder s =
     (if s = llm_unavailable then Inr wait_unavailable
      else if s = click_reply then Inr click_action
      else if s = wait_reply then Inr (JObj wait_action)
      else if s = scroll_reply then Inr (JObj scroll_action)
      else if s = ''5'' then Inr (JInt 5)
      else if s = deep_reply then Inl RecursionError
      else if s = deep_object then Inl RecursionError
      else Inl JSONDecodeError)\<close>

definition http_500 :: provider where
  "http_500 prompt = Inr \<lparr>status_code = 500, resp_json = Inl JSONDecodeError\<rparr>"

definition unreachable :: provider where
  "unreachable prompt = Inl RequestException"

definition search_button :: dom_element where
  "search_button =
     \<lparr>rect_width = 120, rect_height = 40, style_display = ''block'',
      style_visibility = ''visible'', style_opacity = ''1'', tagName = ''BUTTON'',
      attr_id = Some ''search'', attr_placeholder = None, attr_aria_label = None,
      attr_name = None, attr_type = Some ''submit'', attr_role = None,
      textContent = Some '' Search '', dom_value = None\<rparr>"

definition collapsed_button :: dom_element where
  "collapsed_button = search_button\<lparr>rect_width := 0, attr_id := Some ''menu''\<rparr>"

definition example_query :: "string \<Rightarrow> dom_element list" where
  "example_query selector =
     (if selector = ''button'' then [collapsed_button, search_button] else [])"

definition search_element :: page_element where
  "search_element =
     \<lparr>el_index = 0, el_tag = ''button'', el_type = ''submit'', el_role = [], el_id = ''search'',
      el_name = [], el_placeholder = [], el_ariaLabel = [], el_text = ''Search'', el_value = [],
      el_desc = ''BUTTON[submit]'', el_label = ''Search''\<rparr>"

text \<open>A page that answers every call, with the given title.\<close>

definition example_page :: "string \<Rightarrow> page" where
  "example_page title =
     \<lparr>page_evaluate = Inr example_query, page_url = Inr ''https://www.booking.com/'',
      page_title = Inr title, mouse_wheel = None, keyboard_press = (\<lambda>key. None),
      keyboard_type = (\<lambda>text. None), strategy_found = (\<lambda>loc. True),
      locator_click = (\<lambda>loc. None), locator_fill = (\<lambda>loc. None)\<rparr>"

text \<open>The same page once its window has been closed, as seen after the extraction: every
  call on it raises and no locator strategy finds anything.\<close>

definition closed_page :: page where
  "closed_page =
     (example_page ''Hotels'')
       \<lparr>mouse_wheel := Some PlaywrightError,
        keyboard_press := (\<lambda>key. Some PlaywrightError),
        keyboard_type := (\<lambda>text. Some PlaywrightError),
        strategy_found := (\<lambda>loc. False),
        locator_click := (\<lambda>loc. Some PlaywrightError),
        locator_fill := (\<lambda>loc. Some PlaywrightError)\<rparr>"

definition enter_action :: "(string \<times> json) list" where
  "enter_action = [(''action'', JStr ''press_enter''), (''reason'', JStr ''submit'')]"

definition click_first :: "(string \<times> json) list" where
  "click_first = [(''action'', JStr ''click''), (''element'', JInt 0), (''reason'', JStr ''go'')]"

definition ollama_says :: "string \<Rightarrow> provider" where
  "ollama_says reply prompt =
     Inr \<lparr>status_code = 200, resp_json = Inr (JObj [(''response'', JStr reply)])\<rparr>"

text \<open>A platform without a Groq key; its \<open>py_str\<close> agrees with \<open>str\<close> on strings, the
  only values the example runs format.\<close>

definition example_platform :: platform where
  "example_platform =
     \<lparr>json_loads = example_decoder,
      py_str = (\<lambda>v. case v of JStr s \<Rightarrow> s | _ \<Rightarrow> ''?''),
      GROQ_API_KEY = []\<rparr>"

text \<open>One iteration's surroundings: the example page under a title, Groq out of reach and
  Ollama answering with the given reply.\<close>

definition scene :: "string \<Rightarrow> string \<Rightarrow> surroundings" where
  "scene title reply =
     \<lparr>page = example_page title, groq_api = unreachable, ollama_api = ollama_says reply\<rparr>"

text \<open>The title \<open>Checkout\<close>, em dash, \<open>Booking.com\<close>.\<close>

definition checkout_title :: string where
  "checkout_title = ''Checkout '' @ [CHR 0xE2, CHR 0x80, CHR 0x94] @ '' Booking.com''"

text \<open>A run whose first iteration waits and whose later iterations scroll.\<close>

definition wait_then_scroll :: "nat \<Rightarrow> surroundings" where
  "wait_then_scroll k =
     (if k = 0 then scene ''Hotels'' wait_reply else scene ''Hotels'' scroll_reply)"

text \<open>A page on which the extraction script raises, and a run that meets it in its second
  iteration and waits in all others.\<close>

definition blank_scene :: surroundings where
  "blank_scene =
     \<lparr>page = (example_page ''Hotels'')\<lparr>page_evaluate := Inl PlaywrightError\<rparr>,
      groq_api = unreachable, ollama_api = ollama_says wait_reply\<rparr>"

definition wait_blank_wait_wait :: "nat \<Rightarrow> surroundings" where
  "wait_blank_wait_wait k = (if k = 1 then blank_scene else scene ''Hotels'' wait_reply)"

text \<open>The engine asks for a scroll and the window of the page is closed before the
  executor acts.\<close>

definition closed_scene :: surroundings where
  "closed_scene =
     \<lparr>page = closed_page, groq_api = unreachable, ollama_api = ollama_says scroll_reply\<rparr>"

section \<open>Properties\<close>

subsection \<open>Strings\<close>

lemma startswith_iff: "startswith s k \<longleftrightarrow> (\<exists>post. s = k @ post)"
  by (induction s k rule: startswith.induct) auto

lemma str_in_iff: "str_in kw s \<longleftrightarrow> (\<exists>pre post. s = pre @ kw @ post)"
proof (induction s)
  case Nil
  then show ?case by auto
next
  case (Cons c cs)
  show ?case
  proof
    assume "str_in kw (c # cs)"
    then consider "startswith (c # cs) kw" | "str_in kw cs" by auto
    then show "\<exists>pre post. c # cs = pre @ kw @ post"
    proof cases
      case 1
      then obtain post where "c # cs = kw @ post" by (auto simp: startswith_iff)
      then have "c # cs = [] @ kw @ post" by simp
      then show ?thesis by blast
    next
      case 2
      then obtain pre post where "cs = pre @ kw @ post" using Cons.IH by auto
      then have "c # cs = (c # pre) @ kw @ post" by simp
      then show ?thesis by blast
    qed
  next
    assume "\<exists>pre post. c # cs = pre @ kw @ post"
    then obtain pre post where eq: "c # cs = pre @ kw @ post" by blast
    show "str_in kw (c # cs)"
    proof (cases pre)
      case Nil
      with eq have "startswith (c # cs) kw" by (auto simp: startswith_iff)
      then show ?thesis by simp
    next
      case (Cons p ps)
      with eq have "cs = ps @ kw @ post" by simp
      then have "str_in kw cs" using Cons.IH by blast
      then show ?thesis by simp
    qed
  qed
qed

subsection \<open>Site Router\<close>

text \<open>
  C9.  The site map has six keys, each routed to its own fixed (url, display-name) pair;
  every other category is routed to the generic search URL built from the destination, which
  contains the destination string.  Routing is a total function: it has no failure mode.
\<close>

theorem site_router_total:
  "map fst SITE_MAP = [''taxi_booking'', ''bus_booking'', ''hotel_booking'', ''flight_booking'',
                      ''restaurant_booking'', ''tour_booking'']
   \<and> (\<forall>entry \<in> set SITE_MAP. site_router (fst entry) destination = snd entry)
   \<and> (intent \<notin> set (map fst SITE_MAP) \<longrightarrow>
        site_router intent destination =
          \<lparr>site_url = ''https://www.google.com/search?q='' @ destination @ ''+booking'',
           site_name = ''Google''\<rparr>
        \<and> str_in destination (site_url (site_router intent destination)))"
proof (intro conjI impI)
  show "map fst SITE_MAP = [''taxi_booking'', ''bus_booking'', ''hotel_booking'', ''flight_booking'',
                      ''restaurant_booking'', ''tour_booking'']"
    by (simp add: SITE_MAP_def)
  show "\<forall>entry \<in> set SITE_MAP. site_router (fst entry) destination = snd entry"
    by (simp add: SITE_MAP_def site_router_def)
next
  assume "intent \<notin> set (map fst SITE_MAP)"
  then have none: "map_of SITE_MAP intent = None"
    by (simp add: map_of_eq_None_iff)
  then show r: "site_router intent destination =
          \<lparr>site_url = ''https://www.google.com/search?q='' @ destination @ ''+booking'',
           site_name = ''Google''\<rparr>"
    by (simp add: site_router_def)
  have "\<exists>pre post. ''https://www.google.com/search?q='' @ destination @ ''+booking''
          = pre @ destination @ post"
    by blast
  then show "str_in destination (site_url (site_router intent destination))"
    unfolding r by (simp only: str_in_iff site.simps)
qed

theorem site_router_total_witness:
  "site_router ''hotel_booking'' ''Goa''
     = \<lparr>site_url = ''https://www.booking.com/'', site_name = ''Booking.com''\<rparr>
   \<and> ''spa_booking'' \<notin> set (map fst SITE_MAP)
   \<and> site_router ''spa_booking'' ''Goa''
     = \<lparr>site_url = ''https://www.google.com/search?q=Goa+booking'', site_name = ''Google''\<rparr>
   \<and> str_in ''Goa'' (site_url (site_router ''spa_booking'' ''Goa''))"
  using site_router_total [of "''Goa''" "''spa_booking''"]
  by (simp add: SITE_MAP_def)

subsection \<open>Provider chain\<close>

lemma try_groq_fails: "provider_fails r \<Longrightarrow> try_groq r = None"
  by (auto simp: provider_fails_def try_groq_def split: sum.splits)

lemma try_ollama_fails: "provider_fails r \<Longrightarrow> try_ollama r = None"
  by (auto simp: provider_fails_def try_ollama_def split: sum.splits)

text \<open>
  C2.  For every prompt, when every provider of the chain fails (Groq is not configured or
  its request raises or answers with a status other than 200, and the Ollama request raises
  or answers with a status other than 200), \<open>_call_llm\<close> returns exactly the text
  \<open>{"action": "wait", "reason": "LLM unavailable"}\<close>; the function is total, so no
  exception leaves it.  The Decision Engine then returns that action, given that the decoder
  reads the text as the dictionary it spells.
\<close>

theorem call_llm_unavailable:
  assumes "api_key = [] \<or> provider_fails (groq prompt)"
    and "provider_fails (ollama prompt)"
  shows "call_llm api_key groq ollama prompt = llm_unavailable
    \<and> (prompt = build_prompt elements_text goal url title hist
         \<and> decoder llm_unavailable = Inr wait_unavailable \<longrightarrow>
         ask_llm_action decoder api_key groq ollama elements_text goal url title hist
           = Inr wait_unavailable)"
  using assms
  by (auto simp: call_llm_def ask_llm_action_def parse_reply_def try_groq_fails try_ollama_fails Let_def)

theorem call_llm_unavailable_witness:
  "provider_fails (http_500 (build_prompt ''[0] BUTTON'' ''Book'' ''https://x.test/'' ''Home'' []))
   \<and> provider_fails (unreachable (build_prompt ''[0] BUTTON'' ''Book'' ''https://x.test/'' ''Home'' []))
   \<and> example_decoder llm_unavailable = Inr wait_unavailable
   \<and> call_llm ''gsk_key'' http_500 unreachable
        (build_prompt ''[0] BUTTON'' ''Book'' ''https://x.test/'' ''Home'' []) = llm_unavailable
   \<and> ask_llm_action example_decoder ''gsk_key'' http_500 unreachable
        ''[0] BUTTON'' ''Book'' ''https://x.test/'' ''Home'' [] = Inr wait_unavailable"
  using call_llm_unavailable [of "''gsk_key''" http_500
      "build_prompt ''[0] BUTTON'' ''Book'' ''https://x.test/'' ''Home'' []" unreachable
      "''[0] BUTTON''" "''Book''" "''https://x.test/''" "''Home''" "[]" example_decoder]
  by (simp add: provider_fails_def http_500_def unreachable_def example_decoder_def)

subsection \<open>Decision Engine: parsing the reply\<close>

text \<open>What \<open>re.search\<close> returns is a piece of the reply that opens with a brace, closes
  with the next closing brace and has something in between; it finds one when one exists, and
  no such piece starts further left.\<close>

lemma match_braces_shape:
  assumes "match_braces s = Some m"
  shows "\<exists>body post. s = body @ CHR ''}'' # post \<and> m = CHR ''{'' # body @ ''}''
           \<and> body \<noteq> [] \<and> CHR ''}'' \<notin> set body"
proof -
  let ?body = "takeWhile (\<lambda>c. c \<noteq> CHR ''}'') s"
  let ?rest = "dropWhile (\<lambda>c. c \<noteq> CHR ''}'') s"
  from assms have b: "?body \<noteq> []" and r: "?rest \<noteq> []" and m: "m = CHR ''{'' # ?body @ ''}''"
    by (auto simp: match_braces_def Let_def split: if_splits)
  from r have "hd ?rest = CHR ''}''"
    using hd_dropWhile [of "\<lambda>c. c \<noteq> CHR ''}''" s] by auto
  with r obtain post where "?rest = CHR ''}'' # post"
    by (cases ?rest) auto
  then have "s = ?body @ CHR ''}'' # post"
    using takeWhile_dropWhile_id [of "\<lambda>c. c \<noteq> CHR ''}''" s] by simp
  moreover have "CHR ''}'' \<notin> set ?body"
    by (auto dest: set_takeWhileD)
  ultimately show ?thesis using b m by blast
qed

lemma re_search_shape:
  "re_search s = Some m \<Longrightarrow>
     \<exists>pre body post. s = pre @ m @ post \<and> m = CHR ''{'' # body @ ''}''
        \<and> body \<noteq> [] \<and> CHR ''}'' \<notin> set body"
proof (induction s)
  case Nil
  then show ?case by simp
next
  case (Cons c cs)
  show ?case
  proof (cases "c = CHR ''{'' \<and> match_braces cs \<noteq> None")
    case True
    with Cons.prems have "match_braces cs = Some m" by auto
    then obtain body post where "cs = body @ CHR ''}'' # post" "m = CHR ''{'' # body @ ''}''"
      "body \<noteq> []" "CHR ''}'' \<notin> set body"
      using match_braces_shape by blast
    moreover from this True have "c # cs = [] @ m @ post" by simp
    ultimately show ?thesis by blast
  next
    case False
    with Cons.prems have "re_search cs = Some m" by (auto split: option.splits if_splits)
    then obtain pre body post where "cs = pre @ m @ post" "m = CHR ''{'' # body @ ''}''"
      "body \<noteq> []" "CHR ''}'' \<notin> set body"
      using Cons.IH by blast
    moreover from this have "c # cs = (c # pre) @ m @ post" by simp
    ultimately show ?thesis by blast
  qed
qed

lemma match_braces_found:
  "body \<noteq> [] \<Longrightarrow> CHR ''}'' \<notin> set body \<Longrightarrow>
     match_braces (body @ CHR ''}'' # post) = Some (CHR ''{'' # body @ ''}'')"
proof -
  assume b: "body \<noteq> []" and n: "CHR ''}'' \<notin> set body"
  from n have t: "takeWhile (\<lambda>c. c \<noteq> CHR ''}'') (body @ CHR ''}'' # post) = body"
    by (induction body) auto
  from n have d: "dropWhile (\<lambda>c. c \<noteq> CHR ''}'') (body @ CHR ''}'' # post) = CHR ''}'' # post"
    by (induction body) auto
  show ?thesis
    unfolding match_braces_def Let_def t d using b by simp
qed

lemma re_search_complete:
  "body \<noteq> [] \<Longrightarrow> CHR ''}'' \<notin> set body \<Longrightarrow>
     re_search (pre @ CHR ''{'' # body @ CHR ''}'' # post) \<noteq> None"
  by (induction pre) (auto simp: match_braces_found split: option.splits)

lemma re_search_leftmost:
  "re_search s = Some m \<Longrightarrow>
     \<exists>pre post. s = pre @ m @ post
        \<and> (\<forall>pre' body' post'. s = pre' @ CHR ''{'' # body' @ CHR ''}'' # post'
               \<and> body' \<noteq> [] \<and> CHR ''}'' \<notin> set body' \<longrightarrow> length pre \<le> length pre')"
proof (induction s)
  case Nil
  then show ?case by simp
next
  case (Cons c cs)
  show ?case
  proof (cases "c = CHR ''{'' \<and> match_braces cs \<noteq> None")
    case True
    with Cons.prems have "match_braces cs = Some m" by auto
    then obtain body post where "cs = body @ CHR ''}'' # post" "m = CHR ''{'' # body @ ''}''"
      using match_braces_shape by blast
    with True have "c # cs = [] @ m @ post" by simp
    then show ?thesis by (metis le0 list.size(3))
  next
    case False
    with Cons.prems have "re_search cs = Some m" by (auto split: option.splits if_splits)
    from Cons.IH [OF this] obtain pre post where eq: "cs = pre @ m @ post"
      and least: "\<forall>pre' body' post'. cs = pre' @ CHR ''{'' # body' @ CHR ''}'' # post'
               \<and> body' \<noteq> [] \<and> CHR ''}'' \<notin> set body' \<longrightarrow> length pre \<le> length pre'"
      by blast
    have "length (c # pre) \<le> length pre'"
      if d: "c # cs = pre' @ CHR ''{'' # body' @ CHR ''}'' # post'"
        and b: "body' \<noteq> []" "CHR ''}'' \<notin> set body'" for pre' body' post'
    proof (cases pre')
      case Nil
      with d have "c = CHR ''{''" "cs = body' @ CHR ''}'' # post'" by simp_all
      with b have "c = CHR ''{'' \<and> match_braces cs \<noteq> None"
        by (simp add: match_braces_found)
      with False show ?thesis by simp
    next
      case (Cons p ps)
      with d have "cs = ps @ CHR ''{'' # body' @ CHR ''}'' # post'" by simp
      with least b have "length pre \<le> length ps" by blast
      with Cons show ?thesis by simp
    qed
    moreover from eq have "c # cs = (c # pre) @ m @ post" by simp
    ultimately show ?thesis by blast
  qed
qed

text \<open>An object with an object inside is cut at the inner closing brace.\<close>

lemma re_search_nested:
  \<open>re_search ''ok {"a": {"b": 1}} done'' = Some ''{"a": {"b": 1}''\<close>
  by (simp add: match_braces_def)

lemma re_search_prose: "re_search prose_reply = Some click_reply"
  by (simp add: prose_reply_def click_reply_def match_braces_def)

lemma deep_reply_neq: "hd s \<noteq> CHR ''['' \<Longrightarrow> (s = deep_reply) = False"
  by (auto simp: deep_reply_def hd_replicate)

lemma decoder_deep: "example_decoder deep_reply = Inl RecursionError"
proof -
  have "deep_reply \<noteq> llm_unavailable" "deep_reply \<noteq> click_reply"
    "deep_reply \<noteq> wait_reply" "deep_reply \<noteq> scroll_reply" "deep_reply \<noteq> ''5''"
    using deep_reply_neq [of llm_unavailable] deep_reply_neq [of click_reply]
      deep_reply_neq [of wait_reply] deep_reply_neq [of scroll_reply]
      deep_reply_neq [of "''5''"]
    by (auto simp: llm_unavailable_def click_reply_def wait_reply_def scroll_reply_def)
  then show ?thesis
    by (simp add: example_decoder_def)
qed

lemma decoder_click: "example_decoder click_reply = Inr click_action"
  by (simp add: example_decoder_def click_reply_def llm_unavailable_def)

lemma decoder_wait: "example_decoder wait_reply = Inr (JObj wait_action)"
  by (simp add: example_decoder_def click_reply_def llm_unavailable_def wait_reply_def)

lemma decoder_scroll: "example_decoder scroll_reply = Inr (JObj scroll_action)"
  by (simp add: example_decoder_def click_reply_def llm_unavailable_def wait_reply_def
      scroll_reply_def)

lemma decoder_prose: "example_decoder prose_reply = Inl JSONDecodeError"
  by (simp add: example_decoder_def click_reply_def llm_unavailable_def prose_reply_def
      wait_reply_def scroll_reply_def deep_reply_neq deep_object_def)

lemma decoder_refusal: "example_decoder ''I cannot help'' = Inl JSONDecodeError"
  by (simp add: example_decoder_def click_reply_def llm_unavailable_def wait_reply_def
      scroll_reply_def deep_reply_neq deep_object_def)

lemma strip_deep_reply: "strip deep_reply = deep_reply"
  by (simp add: strip_def strip_with_def py_space_def deep_reply_def dropWhile_replicate)

lemma decoder_deep_object: "example_decoder deep_object = Inl RecursionError"
proof -
  have "deep_object \<noteq> deep_reply"
    using deep_reply_neq [of deep_object] by (auto simp: deep_object_def)
  then show ?thesis
    by (simp add: example_decoder_def click_reply_def llm_unavailable_def wait_reply_def
        scroll_reply_def deep_object_def)
qed

lemma decoder_deep_prose: "example_decoder deep_prose = Inl JSONDecodeError"
proof -
  have "deep_prose \<noteq> deep_reply"
    using deep_reply_neq [of deep_prose] by (auto simp: deep_prose_def)
  then show ?thesis
    by (simp add: example_decoder_def click_reply_def llm_unavailable_def wait_reply_def
        scroll_reply_def deep_prose_def deep_object_def)
qed

lemma re_search_deep_prose: "re_search deep_prose = Some deep_object"
proof -
  let ?body = \<open>''"a":'' @ replicate 100000 (CHR ''['')\<close>
  have "match_braces (?body @ CHR ''}'' # []) = Some (CHR ''{'' # ?body @ ''}'')"
    by (rule match_braces_found) simp_all
  then show ?thesis
    by (simp add: deep_prose_def deep_object_def)
qed

text \<open>
  The paths of the parser.  When the whole reply decodes, the result is the decoded value;
  when the decoder rejects it with \<open>JSONDecodeError\<close> and the pattern finds a braced piece
  that decodes, the result is that value; when the decoder rejects the reply and no braced
  piece is found or the piece does not decode (whatever the decoder raises on it), the result
  is \<open>{"action": "wait", "reason": "Parse error"}\<close>.  An exception other than
  \<open>JSONDecodeError\<close> on the whole reply is the one thing that leaves the parser.
\<close>

lemma parse_reply_cases:
  "(decoder reply = Inr v \<longrightarrow> parse_reply decoder reply = Inr v)
   \<and> (decoder reply = Inl JSONDecodeError \<and> re_search reply = Some m \<and> decoder m = Inr v \<longrightarrow>
        parse_reply decoder reply = Inr v)
   \<and> (decoder reply = Inl JSONDecodeError
        \<and> (re_search reply = None \<or> (re_search reply = Some m \<and> decoder m = Inl e)) \<longrightarrow>
        parse_reply decoder reply = Inr parse_error)
   \<and> (decoder prose_reply = Inl JSONDecodeError \<and> decoder click_reply = Inr click_action \<longrightarrow>
        parse_reply decoder prose_reply = Inr click_action)
   \<and> (parse_reply decoder reply = Inl e' \<longleftrightarrow> decoder reply = Inl e' \<and> e' \<noteq> JSONDecodeError)"
  by (auto simp: parse_reply_def re_search_prose split: sum.splits exn.splits option.splits)

lemma parse_reply_examples:
  "example_decoder prose_reply = Inl JSONDecodeError
   \<and> re_search prose_reply = Some click_reply
   \<and> example_decoder click_reply = Inr click_action
   \<and> parse_reply example_decoder prose_reply = Inr click_action
   \<and> parse_reply example_decoder click_reply = Inr click_action
   \<and> example_decoder ''I cannot help'' = Inl JSONDecodeError
   \<and> re_search ''I cannot help'' = None
   \<and> parse_reply example_decoder ''I cannot help'' = Inr parse_error"
  using parse_reply_cases [of example_decoder prose_reply click_action click_reply
      JSONDecodeError JSONDecodeError]
    parse_reply_cases [of example_decoder click_reply click_action click_reply
      JSONDecodeError JSONDecodeError]
    parse_reply_cases [of example_decoder "''I cannot help''" click_action click_reply
      JSONDecodeError JSONDecodeError]
  by (simp add: decoder_prose decoder_click decoder_refusal re_search_prose)

subsection \<open>Page Element Extractor\<close>

lemma scan_selector_length:
  "length (results st) < 35 \<Longrightarrow> length (results (scan_selector els st)) \<le> 35"
  by (induction els st rule: scan_selector.induct) auto

lemma scan_page_length:
  "length (results st) < 35 \<Longrightarrow> length (results (scan_page query sels st)) \<le> 35"
proof (induction sels arbitrary: st)
  case Nil
  then show ?case by simp
next
  case (Cons sel sels)
  show ?case
  proof (cases "35 \<le> length (results (scan_selector (query sel) st))")
    case True
    then show ?thesis using scan_selector_length [OF Cons.prems, of "query sel"] by simp
  next
    case False
    then have "length (results (scan_selector (query sel) st)) < 35" by simp
    from Cons.IH [OF this] False show ?thesis by simp
  qed
qed

lemma make_element_index: "el_index (make_element el n) = n"
  by (simp add: make_element_def Let_def)

lemma scan_selector_origin:
  "e \<in> set (results (scan_selector els st)) \<Longrightarrow> e \<in> set (results st) \<or> came_from els e"
proof (induction els st rule: scan_selector.induct)
  case (1 st)
  then show ?case by simp
next
  case (2 el els st)
  then show ?case
    by (auto simp: came_from_def make_element_index split: if_splits)
qed

lemma scan_page_origin:
  "e \<in> set (results (scan_page query sels st)) \<Longrightarrow>
     e \<in> set (results st) \<or> (\<exists>sel \<in> set sels. came_from (query sel) e)"
proof (induction sels arbitrary: st)
  case Nil
  then show ?case by simp
next
  case (Cons sel sels)
  show ?case
  proof (cases "35 \<le> length (results (scan_selector (query sel) st))")
    case True
    with Cons.prems have "e \<in> set (results (scan_selector (query sel) st))" by simp
    then show ?thesis using scan_selector_origin by fastforce
  next
    case False
    with Cons.prems have "e \<in> set (results (scan_page query sels (scan_selector (query sel) st)))"
      by simp
    from Cons.IH [OF this] show ?thesis using scan_selector_origin by fastforce
  qed
qed

text \<open>
  C7.  For every page, whether \<open>page.evaluate\<close> raises or runs, the extractor returns at
  most 35 elements, and every returned element was made from a candidate of one of the
  selectors whose bounding box has neither zero width nor zero height.
\<close>

theorem get_page_elements_bounded:
  "length (fst (get_page_elements evaluate)) \<le> 35
   \<and> (\<forall>e \<in> set (fst (get_page_elements evaluate)).
        \<exists>query selector el. evaluate = Inr query \<and> selector \<in> set selectors
          \<and> el \<in> set (query selector) \<and> e = make_element el (el_index e)
          \<and> rect_width el \<noteq> 0 \<and> rect_height el \<noteq> 0)"
proof (cases evaluate)
  case (Inl e)
  then show ?thesis by (simp add: get_page_elements_def)
next
  case (Inr query)
  have len: "length (results (scan_page query selectors \<lparr>results = [], seen = []\<rparr>)) \<le> 35"
    by (rule scan_page_length) simp
  have "\<exists>selector el. selector \<in> set selectors
          \<and> el \<in> set (query selector) \<and> e = make_element el (el_index e)
          \<and> rect_width el \<noteq> 0 \<and> rect_height el \<noteq> 0"
    if "e \<in> set (results (scan_page query selectors \<lparr>results = [], seen = []\<rparr>))" for e
  proof -
    from scan_page_origin [OF that] obtain sel
      where "sel \<in> set selectors" "came_from (query sel) e"
      by auto
    then show ?thesis unfolding came_from_def list_ex_iff by blast
  qed
  with len Inr show ?thesis by (simp add: get_page_elements_def Let_def)
qed

lemma example_extraction:
  \<open>get_page_elements (Inr example_query) = ([search_element], ''[0] BUTTON[submit] "Search"'')\<close>
  by (simp add: get_page_elements_def selectors_def example_query_def collapsed_button_def
      search_button_def search_element_def make_element_def dedup_key_def element_line_def
      or_empty_def js_or_def trim_def strip_with_def js_space_def lower_def upper_def
      lower_char_def upper_char_def ascii_lowercase_def ascii_uppercase_def Let_def
      str_nat.simps digit_char_def)

theorem get_page_elements_bounded_witness:
  "fst (get_page_elements (Inr example_query)) = [search_element]
   \<and> length (fst (get_page_elements (Inr example_query))) \<le> 35
   \<and> (\<exists>selector el. selector \<in> set selectors \<and> el \<in> set (example_query selector)
         \<and> search_element = make_element el (el_index search_element)
         \<and> rect_width el \<noteq> 0 \<and> rect_height el \<noteq> 0)
   \<and> rect_width collapsed_button = 0
   \<and> collapsed_button \<in> set (example_query ''button'')"
  using get_page_elements_bounded [of "Inr example_query"]
  by (simp add: example_extraction example_query_def collapsed_button_def)

subsection \<open>Action Executor\<close>

text \<open>
  C8.  For every \<open>click\<close> or \<open>type\<close> action whose element index is an integer out of range
  (negative, which includes the default \<open>-1\<close> of a missing index, or at least the number of
  extracted elements), on every page, the executor returns the continue signal, raises
  nothing, and its only call is the one-second sleep: no element is touched.
\<close>

theorem out_of_range_continues:
  assumes "dict_get action ''action'' (JStr ''wait'') = JStr ''click''
           \<or> dict_get action ''action'' (JStr ''wait'') = JStr ''type''"
    and "dict_get action ''element'' (JInt (- 1)) = JInt idx"
    and "idx < 0 \<or> int (length elements) \<le> idx"
  shows "execute_action pg action elements = ([Sleep 1000], Inr True)
    \<and> \<not> list_ex element_interaction (fst (execute_action pg action elements))"
  using assms by (auto simp: execute_action_def Let_def)

theorem out_of_range_continues_witness:
  "execute_action (example_page ''Hotels'') [(''action'', JStr ''click''), (''element'', JInt 7)]
       [search_element] = ([Sleep 1000], Inr True)
   \<and> execute_action (example_page ''Hotels'')
       [(''action'', JStr ''type''), (''element'', JInt (- 2)), (''text'', JStr ''Goa'')]
       [search_element] = ([Sleep 1000], Inr True)"
  using out_of_range_continues [of "[(''action'', JStr ''click''), (''element'', JInt 7)]" 7
      "[search_element]" "example_page ''Hotels''"]
    out_of_range_continues [of
      "[(''action'', JStr ''type''), (''element'', JInt (- 2)), (''text'', JStr ''Goa'')]" "- 2"
      "[search_element]" "example_page ''Hotels''"]
  by (simp add: dict_get_def)

lemma loop_body_raises:
  "reaches_decision w \<Longrightarrow> decided P goal w s = Inr (JObj a) \<Longrightarrow>
   snd (execute_action (page w) a (fst (get_page_elements (page_evaluate (page w))))) = Inl e \<Longrightarrow>
   loop_body P goal w s
     = Break (AutomationError e) (s\<lparr>history := history s @ [history_line P (step s) a]\<rparr>)"
  by (simp add: loop_body_def reaches_decision_def decided_def case_prod_beta Let_def)

lemma ollama_decided:
  "GROQ_API_KEY P = [] \<Longrightarrow> ollama_api w = ollama_says reply \<Longrightarrow> strip reply = reply \<Longrightarrow>
   json_loads P reply = Inr v \<Longrightarrow> decided P goal w s = Inr v"
  by (simp add: decided_def ask_llm_action_def call_llm_def try_ollama_def
      ollama_says_def dict_get_def parse_reply_def Let_def)

lemma strip_wait_reply: "strip wait_reply = wait_reply"
  by (simp add: strip_def strip_with_def py_space_def wait_reply_def)

lemma strip_scroll_reply: "strip scroll_reply = scroll_reply"
  by (simp add: strip_def strip_with_def py_space_def scroll_reply_def)

lemma hotels_no_payment: "\<not> is_payment_page ''https://www.booking.com/'' ''Hotels''"
  by (simp add: is_payment_page_def payment_keywords_def lower_def lower_char_def
      ascii_lowercase_def ascii_uppercase_def)

text \<open>
  The result of the executor on every page, for an action whose \<open>element\<close> field, when
  present, is an integer: the stop signal for \<open>done\<close>; for \<open>scroll\<close> and \<open>press_enter\<close>
  the exception of the page call when it raises and the continue signal otherwise; the
  continue signal for every other action, whatever the page does.
\<close>

lemma execute_action_result:
  assumes "map_of action ''element'' = None \<or> (\<exists>i. map_of action ''element'' = Some (JInt i))"
  shows "snd (execute_action pg action elements)
    = (if dict_get action ''action'' (JStr ''wait'') = JStr ''done'' then Inr False
       else if dict_get action ''action'' (JStr ''wait'') = JStr ''scroll''
       then (case mouse_wheel pg of Some e \<Rightarrow> Inl e | None \<Rightarrow> Inr True)
       else if dict_get action ''action'' (JStr ''wait'') = JStr ''press_enter''
       then (case keyboard_press pg ''Enter'' of Some e \<Rightarrow> Inl e | None \<Rightarrow> Inr True)
       else Inr True)"
proof -
  from assms obtain i where idx: "dict_get action ''element'' (JInt (- 1)) = JInt i"
    by (auto simp: dict_get_def)
  let ?t = "dict_get action ''action'' (JStr ''wait'')"
  consider "?t = JStr ''done''" | "?t = JStr ''wait''" | "?t = JStr ''scroll''"
    | "?t = JStr ''press_enter''"
    | "?t \<noteq> JStr ''done''" "?t \<noteq> JStr ''wait''" "?t \<noteq> JStr ''scroll''"
      "?t \<noteq> JStr ''press_enter''"
    by blast
  then show ?thesis
  proof cases
    case 1
    then show ?thesis by (simp add: execute_action_def)
  next
    case 2
    then show ?thesis by (simp add: execute_action_def)
  next
    case 3
    then show ?thesis by (auto simp: execute_action_def split: option.splits)
  next
    case 4
    then show ?thesis by (auto simp: execute_action_def split: option.splits)
  next
    case 5
    have "snd (execute_action pg action elements) = Inr True"
    proof (cases "i < 0 \<or> int (length elements) \<le> i")
      case True
      with 5 idx show ?thesis by (auto simp: execute_action_def Let_def)
    next
      case False
      with 5 idx show ?thesis
        by (auto simp: execute_action_def Let_def split: prod.splits option.splits)
    qed
    with 5 show ?thesis by simp
  qed
qed

subsection \<open>Control Loop: one iteration and the run\<close>

lemma loop_body_skip:
  "snd (get_page_elements (page_evaluate (page w))) = [] \<Longrightarrow> loop_body P goal w s = Continue s"
  by (simp add: loop_body_def case_prod_beta)

lemma loop_body_payment:
  "snd (get_page_elements (page_evaluate (page w))) \<noteq> [] \<Longrightarrow>
   is_payment_page (fst (read_location (page w))) (snd (read_location (page w))) \<Longrightarrow>
   loop_body P goal w s = Break PaymentDetected s"
  by (simp add: loop_body_def case_prod_beta)

lemma loop_body_executed:
  "executed P goal w s = Some a \<Longrightarrow>
   loop_body P goal w s =
     (if is_wait a
      then (if 3 \<le> waits s + 1
            then Break RepeatedWaitAbort
                   (s\<lparr>history := history s @ [history_line P (step s) a], waits := waits s + 1\<rparr>)
            else Continue
                   (s\<lparr>history := history s @ [history_line P (step s) a], waits := waits s + 1\<rparr>))
      else Continue (s\<lparr>history := history s @ [history_line P (step s) a], waits := 0\<rparr>))"
  by (auto simp: loop_body_def executed_def decided_def reaches_decision_def is_wait_def
      case_prod_beta Let_def split: if_splits sum.splits json.splits)

text \<open>
  A dictionary without an \<open>action\<close> key is executed like a wait (the executor's default), but
  the loop does not count it: \<open>llm_action.get("action")\<close> is \<open>None\<close> there, and the counter is
  set to zero.
\<close>

lemma keyless_action_resets:
  assumes "executed P goal w t = Some a" and "map_of a ''action'' = None"
  shows "execute_action (page w) a elements = ([Sleep 2000], Inr True)
    \<and> (\<exists>t'. loop_body P goal w t = Continue t' \<and> waits t' = 0)"
proof -
  from assms(2) have "\<not> is_wait a" by (simp add: is_wait_def)
  with assms(1) have "\<exists>t'. loop_body P goal w t = Continue t' \<and> waits t' = 0"
    by (simp add: loop_body_executed)
  moreover from assms(2) have "execute_action (page w) a elements = ([Sleep 2000], Inr True)"
    by (simp add: execute_action_def dict_get_def)
  ultimately show ?thesis by simp
qed


lemma loop_body_Continue:
  "loop_body P goal w s = Continue s' \<Longrightarrow>
     (snd (get_page_elements (page_evaluate (page w))) = [] \<and> s' = s)
     \<or> (\<exists>a. executed P goal w s = Some a)"
  by (auto simp: loop_body_def executed_def decided_def reaches_decision_def
      case_prod_beta Let_def split: if_splits sum.splits json.splits bool.splits)

lemma for_loop_Break:
  "step s < MAX_LLM_STEPS \<Longrightarrow> loop_body P goal (world (step s)) s = Break r s' \<Longrightarrow>
   for_loop P goal world s = \<lparr>reason = r, iterations = step s + 1, final = s'\<rparr>"
  by (subst for_loop.simps) simp

lemma for_loop_Continue:
  "step s < MAX_LLM_STEPS \<Longrightarrow> loop_body P goal (world (step s)) s = Continue s' \<Longrightarrow>
   for_loop P goal world s = for_loop P goal world (s'\<lparr>step := step s + 1\<rparr>)"
  by (subst for_loop.simps) simp

lemma for_loop_end:
  "\<not> step s < MAX_LLM_STEPS \<Longrightarrow>
   for_loop P goal world s = \<lparr>reason = StepBudgetExhausted, iterations = step s, final = s\<rparr>"
  by (subst for_loop.simps) simp

text \<open>The session met at the start of iteration \<open>k\<close> is the one the loop runs on from there.\<close>

lemma session_at_run:
  "session_at P goal world k = Some s \<Longrightarrow>
     step s = k \<and> k \<le> MAX_LLM_STEPS \<and> control_loop P goal world = for_loop P goal world s"
proof (induction k arbitrary: s)
  case 0
  then have "s = new_session" by simp
  then show ?case by (simp add: control_loop_def new_session_def)
next
  case (Suc k)
  from Suc.prems obtain s0 s1 where s0: "session_at P goal world k = Some s0"
    and k: "k < MAX_LLM_STEPS" and body: "loop_body P goal (world k) s0 = Continue s1"
    and s: "s = s1\<lparr>step := k + 1\<rparr>"
    by (auto split: option.splits if_splits iteration.splits)
  from Suc.IH [OF s0] have st: "step s0 = k"
    and run: "control_loop P goal world = for_loop P goal world s0" by auto
  from k st body have "for_loop P goal world s0 = for_loop P goal world s"
    using for_loop_Continue [of s0 P goal world s1] s by simp
  with run s k show ?case by simp
qed

lemma for_loop_iterations:
  "step s \<le> MAX_LLM_STEPS \<Longrightarrow> iterations (for_loop P goal world s) \<le> MAX_LLM_STEPS"
proof (induction P goal world s rule: for_loop.induct)
  case (1 P goal world s)
  show ?case
  proof (cases "step s < MAX_LLM_STEPS")
    case False
    with "1.prems" show ?thesis by (simp add: for_loop_end)
  next
    case True
    show ?thesis
    proof (cases "loop_body P goal (world (step s)) s")
      case (Continue s')
      with True "1.IH" [OF True Continue] show ?thesis
        by (simp add: for_loop_Continue)
    next
      case (Break r s')
      with True show ?thesis by (simp add: for_loop_Break)
    qed
  qed
qed

lemma skip_run_add:
  "session_at P goal world j = Some t \<Longrightarrow>
   \<forall>i. j \<le> i \<and> i < j + d \<longrightarrow> nothing_extracted (world i) \<Longrightarrow>
   j + d \<le> MAX_LLM_STEPS \<Longrightarrow>
   \<exists>t'. session_at P goal world (j + d) = Some t' \<and> waits t' = waits t"
proof (induction d)
  case 0
  then show ?case by simp
next
  case (Suc d)
  then obtain t' where t': "session_at P goal world (j + d) = Some t'" "waits t' = waits t"
    by auto
  from Suc.prems have "nothing_extracted (world (j + d))" by simp
  then have "loop_body P goal (world (j + d)) t' = Continue t'"
    by (simp add: nothing_extracted_def loop_body_skip)
  with t' Suc.prems show ?case by simp
qed

lemma skip_run:
  assumes "session_at P goal world j = Some t"
    and "\<forall>i. j \<le> i \<and> i < j' \<longrightarrow> nothing_extracted (world i)"
    and "j \<le> j'" and "j' \<le> MAX_LLM_STEPS"
  shows "\<exists>t'. session_at P goal world j' = Some t' \<and> waits t' = waits t"
  using skip_run_add [of P goal world j t "j' - j"] assms by simp

text \<open>Between iterations the wait counter is below the threshold of three.\<close>

lemma session_at_waits: "session_at P goal world k = Some s \<Longrightarrow> waits s < 3"
proof (induction k arbitrary: s)
  case 0
  then have "s = new_session" by simp
  then show ?case by (simp add: new_session_def)
next
  case (Suc k)
  from Suc.prems obtain s0 s1 where s0: "session_at P goal world k = Some s0"
    and body: "loop_body P goal (world k) s0 = Continue s1"
    and s: "s = s1\<lparr>step := k + 1\<rparr>"
    by (auto split: option.splits if_splits iteration.splits)
  from Suc.IH [OF s0] have w0: "waits s0 < 3" .
  from loop_body_Continue [OF body] consider "s1 = s0"
    | a where "executed P goal (world k) s0 = Some a" by blast
  then have "waits s1 < 3"
  proof cases
    case 1
    with w0 show ?thesis by simp
  next
    case 2
    with body show ?thesis
      by (auto simp: loop_body_executed split: if_splits)
  qed
  with s show ?case by simp
qed

text \<open>An executed wait either is the third in a row and ends the run in its own iteration,
  or adds one to the counter.\<close>

lemma wait_step:
  assumes "session_at P goal world j = Some t" and "j < MAX_LLM_STEPS"
    and "executed P goal (world j) t = Some a" and "is_wait a"
  shows "(3 \<le> waits t + 1 \<longrightarrow> reason (control_loop P goal world) = RepeatedWaitAbort
            \<and> iterations (control_loop P goal world) = j + 1
            \<and> waits (final (control_loop P goal world)) = waits t + 1)
       \<and> (\<not> 3 \<le> waits t + 1 \<longrightarrow>
            (\<exists>t'. session_at P goal world (Suc j) = Some t' \<and> waits t' = waits t + 1))"
proof (cases "3 \<le> waits t + 1")
  case True
  with assms(3,4) have "loop_body P goal (world j) t = Break RepeatedWaitAbort
      (t\<lparr>history := history t @ [history_line P (step t) a], waits := waits t + 1\<rparr>)"
    by (simp add: loop_body_executed)
  moreover from session_at_run [OF assms(1)] have "step t = j"
    and "control_loop P goal world = for_loop P goal world t" by auto
  ultimately show ?thesis using assms(2) True
    by (simp add: for_loop_Break)
next
  case False
  with assms(3,4) have "loop_body P goal (world j) t = Continue
      (t\<lparr>history := history t @ [history_line P (step t) a], waits := waits t + 1\<rparr>)"
    by (simp add: loop_body_executed)
  with assms(1,2) False show ?thesis by simp
qed

text \<open>A wait at \<open>j\<close> followed by iterations that extract nothing up to \<open>j'\<close>.\<close>

lemma wait_then_skips:
  assumes s: "session_at P goal world j = Some t" and j: "j < j'" "j' < MAX_LLM_STEPS"
    and w: "\<forall>u. session_at P goal world j = Some u \<longrightarrow>
              (\<exists>a. executed P goal (world j) u = Some a \<and> is_wait a)"
    and sk: "\<forall>i. j < i \<and> i < j' \<longrightarrow> nothing_extracted (world i)"
  shows "(3 \<le> waits t + 1 \<longrightarrow> reason (control_loop P goal world) = RepeatedWaitAbort
            \<and> iterations (control_loop P goal world) = j + 1
            \<and> waits (final (control_loop P goal world)) = waits t + 1)
       \<and> (\<not> 3 \<le> waits t + 1 \<longrightarrow>
            (\<exists>t'. session_at P goal world j' = Some t' \<and> waits t' = waits t + 1))"
proof (cases "3 \<le> waits t + 1")
  case True
  from w s obtain a where a: "executed P goal (world j) t = Some a" "is_wait a" by auto
  from wait_step [OF s _ a] j True show ?thesis by simp
next
  case False
  from w s obtain a where a: "executed P goal (world j) t = Some a" "is_wait a" by auto
  from wait_step [OF s _ a] j False obtain t1
    where t1: "session_at P goal world (Suc j) = Some t1" "waits t1 = waits t + 1" by auto
  from sk have "\<forall>i. Suc j \<le> i \<and> i < j' \<longrightarrow> nothing_extracted (world i)" by simp
  from skip_run [OF t1(1) this] j obtain t'
    where "session_at P goal world j' = Some t'" "waits t' = waits t1" by auto
  with t1 False show ?thesis by simp
qed

text \<open>Three waits with nothing executed between them: the run ends in the wait that brings
  the counter to three, which depends on the counter the first of them starts from.\<close>

lemma three_waits_run:
  assumes s: "session_at P goal world k1 = Some s"
    and k: "k1 < k2" "k2 < k3" "k3 < MAX_LLM_STEPS"
    and w: "\<forall>j\<in>{k1, k2, k3}. \<forall>t. session_at P goal world j = Some t \<longrightarrow>
              (\<exists>a. executed P goal (world j) t = Some a \<and> is_wait a)"
    and sk: "\<forall>j. k1 < j \<and> j < k3 \<and> j \<noteq> k2 \<longrightarrow> nothing_extracted (world j)"
  shows "reason (control_loop P goal world) = RepeatedWaitAbort
    \<and> iterations (control_loop P goal world)
        = (if waits s = 0 then k3 + 1 else if waits s = 1 then k2 + 1 else k1 + 1)
    \<and> waits (final (control_loop P goal world)) = 3"
proof -
  have ws: "waits s < 3" by (rule session_at_waits [OF s])
  have w1: "\<forall>u. session_at P goal world k1 = Some u \<longrightarrow>
              (\<exists>a. executed P goal (world k1) u = Some a \<and> is_wait a)"
    and w2: "\<forall>u. session_at P goal world k2 = Some u \<longrightarrow>
              (\<exists>a. executed P goal (world k2) u = Some a \<and> is_wait a)"
    and w3: "\<forall>u. session_at P goal world k3 = Some u \<longrightarrow>
              (\<exists>a. executed P goal (world k3) u = Some a \<and> is_wait a)"
    using w by auto
  have sk1: "\<forall>i. k1 < i \<and> i < k2 \<longrightarrow> nothing_extracted (world i)"
    and sk2: "\<forall>i. k2 < i \<and> i < k3 \<longrightarrow> nothing_extracted (world i)"
    using sk k by auto
  have k2m: "k2 < MAX_LLM_STEPS" using k by simp
  note first = wait_then_skips [OF s k(1) k2m w1 sk1]
  show ?thesis
  proof (cases "3 \<le> waits s + 1")
    case True
    with ws have "waits s = 2" by simp
    with first True show ?thesis by simp
  next
    case False
    with first obtain s2 where s2: "session_at P goal world k2 = Some s2"
      "waits s2 = waits s + 1" by auto
    note second = wait_then_skips [OF s2(1) k(2,3) w2 sk2]
    show ?thesis
    proof (cases "3 \<le> waits s2 + 1")
      case True
      with s2(2) False have "waits s = 1" by simp
      with second True s2(2) show ?thesis by simp
    next
      case False
      with s2(2) have z: "waits s = 0" by simp
      from False second obtain s3 where s3: "session_at P goal world k3 = Some s3"
        "waits s3 = waits s2 + 1" by auto
      from w3 s3(1) obtain a where a: "executed P goal (world k3) s3 = Some a" "is_wait a"
        by auto
      from wait_step [OF s3(1) k(3) a] s3(2) s2(2) z show ?thesis by simp
    qed
  qed
qed

lemma continues_body:
  assumes "continues P goal w s"
  shows "\<exists>s'. loop_body P goal w s = Continue s'"
proof (cases "nothing_extracted w")
  case True
  then show ?thesis by (simp add: nothing_extracted_def loop_body_skip)
next
  case False
  with assms obtain a where "executed P goal w s = Some a" "\<not> (is_wait a \<and> 2 \<le> waits s)"
    by (auto simp: continues_def split: option.splits)
  then show ?thesis by (auto simp: loop_body_executed)
qed

lemma continues_reach:
  assumes "\<forall>k<MAX_LLM_STEPS. \<forall>s. session_at P goal world k = Some s
             \<longrightarrow> continues P goal (world k) s"
  shows "k \<le> MAX_LLM_STEPS \<Longrightarrow> \<exists>s. session_at P goal world k = Some s"
proof (induction k)
  case 0
  then show ?case by simp
next
  case (Suc k)
  then obtain s where s: "session_at P goal world k = Some s" by auto
  with assms Suc.prems have "continues P goal (world k) s" by simp
  then obtain s' where "loop_body P goal (world k) s = Continue s'"
    using continues_body by blast
  with s Suc.prems show ?case by simp
qed

lemma continues_run:
  assumes "\<forall>k<MAX_LLM_STEPS. \<forall>s. session_at P goal world k = Some s
             \<longrightarrow> continues P goal (world k) s"
  shows "reason (control_loop P goal world) = StepBudgetExhausted
    \<and> iterations (control_loop P goal world) = MAX_LLM_STEPS"
proof -
  from continues_reach [OF assms, of MAX_LLM_STEPS] obtain s
    where s: "session_at P goal world MAX_LLM_STEPS = Some s" by auto
  from session_at_run [OF s] have "step s = MAX_LLM_STEPS"
    and "control_loop P goal world = for_loop P goal world s" by auto
  then show ?thesis by (simp add: for_loop_end)
qed

subsection \<open>The example runs\<close>

lemma scene_extraction:
  \<open>get_page_elements (page_evaluate (page (scene title reply)))
     = ([search_element], ''[0] BUTTON[submit] "Search"'')\<close>
  by (simp add: scene_def example_page_def example_extraction)

lemma scene_location:
  "read_location (page (scene title reply)) = (''https://www.booking.com/'', title)"
  by (simp add: scene_def example_page_def read_location_def)

lemma scene_url: "page_url (page (scene title reply)) = Inr ''https://www.booking.com/''"
  by (simp add: scene_def example_page_def)

lemma scene_title: "page_title (page (scene title reply)) = Inr title"
  by (simp add: scene_def example_page_def)

lemma scene_wheel: "mouse_wheel (page (scene title reply)) = None"
  by (simp add: scene_def example_page_def)

lemma gift_card_no_payment: "\<not> is_payment_page ''https://www.booking.com/'' ''Gift card''"
  by (simp add: is_payment_page_def payment_keywords_def lower_def lower_char_def
      ascii_lowercase_def ascii_uppercase_def)

lemma checkout_keyword:
  "str_in ''checkout'' (lower (''https://www.booking.com/'' @ '' '' @ checkout_title))"
  by (simp add: checkout_title_def lower_def lower_char_def ascii_lowercase_def
      ascii_uppercase_def)

lemma scene_decided:
  "strip reply = reply \<Longrightarrow> example_decoder reply = Inr v \<Longrightarrow>
   decided example_platform goal (scene title reply) s = Inr v"
  by (rule ollama_decided [where reply = reply]) (simp_all add: example_platform_def scene_def)

lemma scene_reaches_decision:
  "\<not> is_payment_page ''https://www.booking.com/'' title \<Longrightarrow> reaches_decision (scene title reply)"
  by (simp add: reaches_decision_def scene_extraction scene_location)

lemma scene_executed_wait:
  "\<not> is_payment_page ''https://www.booking.com/'' title \<Longrightarrow>
   executed example_platform goal (scene title wait_reply) s = Some wait_action"
  by (simp add: executed_def scene_reaches_decision scene_decided strip_wait_reply decoder_wait
      execute_action_def wait_action_def dict_get_def)

lemma scene_executed_scroll:
  "\<not> is_payment_page ''https://www.booking.com/'' title \<Longrightarrow>
   executed example_platform goal (scene title scroll_reply) s = Some scroll_action"
  by (simp add: executed_def scene_reaches_decision scene_decided strip_scroll_reply
      decoder_scroll execute_action_def scroll_action_def dict_get_def scene_wheel)

lemma is_wait_examples: "is_wait wait_action" "\<not> is_wait scroll_action"
  by (simp_all add: is_wait_def wait_action_def scroll_action_def)

lemma always_scroll_continues:
  "\<not> is_payment_page ''https://www.booking.com/'' title \<Longrightarrow>
   continues example_platform goal (scene title scroll_reply) s"
  by (simp add: continues_def scene_executed_scroll is_wait_examples)

lemma blank_scene_nothing: "nothing_extracted blank_scene"
  by (simp add: nothing_extracted_def blank_scene_def example_page_def get_page_elements_def)

lemma wait_blank_wait_wait_waits:
  "\<forall>j\<in>{0, 2, 3}. \<forall>t. session_at example_platform goal wait_blank_wait_wait j = Some t
     \<longrightarrow> (\<exists>a. executed example_platform goal (wait_blank_wait_wait j) t = Some a \<and> is_wait a)"
  by (simp add: wait_blank_wait_wait_def scene_executed_wait hotels_no_payment is_wait_examples
      del: session_at.simps)

lemma wait_blank_wait_wait_skips:
  "\<forall>j. 0 < j \<and> j < 3 \<and> j \<noteq> 2 \<longrightarrow> nothing_extracted (wait_blank_wait_wait j)"
proof (intro allI impI)
  fix j :: nat
  assume "0 < j \<and> j < 3 \<and> j \<noteq> 2"
  then have "j = 1" by arith
  then show "nothing_extracted (wait_blank_wait_wait j)"
    by (simp add: wait_blank_wait_wait_def blank_scene_nothing)
qed

lemma always_wait_run:
  assumes np: "\<not> is_payment_page ''https://www.booking.com/'' title"
  shows "reason (control_loop example_platform goal (\<lambda>k. scene title wait_reply))
      = RepeatedWaitAbort
    \<and> iterations (control_loop example_platform goal (\<lambda>k. scene title wait_reply)) = 3"
proof -
  let ?w = "\<lambda>k::nat. scene title wait_reply"
  let ?h = "\<lambda>s. history s @ [history_line example_platform (step s) wait_action]"
  let ?s1 = "new_session\<lparr>history := ?h new_session, waits := 1, step := 1\<rparr>"
  let ?s2 = "?s1\<lparr>history := ?h ?s1, waits := 2, step := 2\<rparr>"
  have b0: "loop_body example_platform goal (?w 0) new_session
      = Continue (new_session\<lparr>history := ?h new_session, waits := 1\<rparr>)"
    using np by (simp add: loop_body_executed scene_executed_wait is_wait_examples new_session_def)
  have b1: "loop_body example_platform goal (?w 1) ?s1
      = Continue (?s1\<lparr>history := ?h ?s1, waits := 2\<rparr>)"
    using np by (simp add: loop_body_executed scene_executed_wait is_wait_examples new_session_def)
  have b2: "loop_body example_platform goal (?w 2) ?s2
      = Break RepeatedWaitAbort (?s2\<lparr>history := ?h ?s2, waits := 3\<rparr>)"
    using np by (simp add: loop_body_executed scene_executed_wait is_wait_examples new_session_def)
  have "control_loop example_platform goal ?w = for_loop example_platform goal ?w ?s1"
    using for_loop_Continue [of new_session example_platform goal ?w, OF _ b0 [simplified]]
    by (simp add: control_loop_def new_session_def MAX_LLM_STEPS_def)
  also have "\<dots> = for_loop example_platform goal ?w ?s2"
    using for_loop_Continue [of ?s1 example_platform goal ?w] b1
    by (simp add: new_session_def MAX_LLM_STEPS_def numeral_2_eq_2)
  also have "\<dots> = \<lparr>reason = RepeatedWaitAbort, iterations = 3,
      final = ?s2\<lparr>history := ?h ?s2, waits := 3\<rparr>\<rparr>"
    using for_loop_Break [of ?s2 example_platform goal ?w] b2
    by (simp add: new_session_def MAX_LLM_STEPS_def numeral_2_eq_2 numeral_3_eq_3)
  finally show ?thesis by simp
qed

lemma wait_then_scroll_sessions:
  "\<exists>s1 s2. session_at example_platform goal wait_then_scroll (Suc 0) = Some s1 \<and> waits s1 = 1
     \<and> session_at example_platform goal wait_then_scroll (Suc (Suc 0)) = Some s2 \<and> waits s2 = 0"
  by (simp add: wait_then_scroll_def MAX_LLM_STEPS_def loop_body_executed scene_executed_wait
      scene_executed_scroll hotels_no_payment is_wait_examples new_session_def)

subsection \<open>Control Loop: how a run ends\<close>

text \<open>
  C1, as the claim states it, fails: \<open>card\<close> is not a keyword of the list.  On a page titled
  \<open>Gift card\<close> with a non-empty extraction the lower-cased \<open>url + " " + title\<close> contains
  \<open>card\<close>, yet the page is not taken for a payment page and the run goes on to the end of
  its step budget.
\<close>

theorem card_is_no_keyword:
  "str_in ''card'' (lower (''https://www.booking.com/'' @ '' '' @ ''Gift card''))
   \<and> snd (get_page_elements (page_evaluate (page (scene ''Gift card'' scroll_reply)))) \<noteq> []
   \<and> read_location (page (scene ''Gift card'' scroll_reply))
       = (''https://www.booking.com/'', ''Gift card'')
   \<and> \<not> is_payment_page ''https://www.booking.com/'' ''Gift card''
   \<and> reason (control_loop example_platform ''Book a hotel'' (\<lambda>k. scene ''Gift card'' scroll_reply))
       = StepBudgetExhausted"
proof -
  have "str_in ''card'' (lower (''https://www.booking.com/'' @ '' '' @ ''Gift card''))"
    by (simp add: lower_def lower_char_def ascii_lowercase_def ascii_uppercase_def)
  moreover have "reason (control_loop example_platform ''Book a hotel''
      (\<lambda>k. scene ''Gift card'' scroll_reply)) = StepBudgetExhausted"
    using continues_run [of example_platform "''Book a hotel''"
        "\<lambda>k. scene ''Gift card'' scroll_reply"]
    by (simp add: always_scroll_continues gift_card_no_payment)
  ultimately show ?thesis
    by (simp add: scene_extraction scene_location gift_card_no_payment)
qed

text \<open>
  C1, amended.  The keywords are the fourteen of \<open>payment_keywords\<close>: \<open>payment\<close>,
  \<open>checkout\<close>, \<open>pay now\<close>, \<open>card details\<close>, \<open>billing\<close>, \<open>credit card\<close>, \<open>debit card\<close>, \<open>upi\<close>,
  \<open>razorpay\<close>, \<open>stripe\<close>, \<open>paytm\<close>, \<open>phonepe\<close>, \<open>confirm booking\<close>, \<open>proceed to pay\<close>.  For
  every url and title read in an iteration \<open>k\<close> (any \<open>k\<close> below \<open>MAX_LLM_STEPS\<close>) that the run
  reaches with a non-empty extraction, if the lower-cased \<open>url + " " + title\<close> contains one of
  these keywords, the loop ends in that iteration with reason payment-detected.
\<close>

theorem payment_page_stops:
  assumes "session_at P goal world k = Some s" and "k < MAX_LLM_STEPS"
    and "snd (get_page_elements (page_evaluate (page (world k)))) \<noteq> []"
    and "page_url (page (world k)) = Inr url" and "page_title (page (world k)) = Inr title"
    and "kw \<in> set payment_keywords" and "str_in kw (lower (url @ '' '' @ title))"
  shows "is_payment_page url title
    \<and> loop_body P goal (world k) s = Break PaymentDetected s
    \<and> control_loop P goal world = \<lparr>reason = PaymentDetected, iterations = k + 1, final = s\<rparr>"
proof -
  from assms(6,7) have pay: "is_payment_page url title"
    by (auto simp: is_payment_page_def Let_def list_ex_iff)
  from assms(4,5) have loc: "read_location (page (world k)) = (url, title)"
    by (simp add: read_location_def)
  from pay loc assms(3) have body: "loop_body P goal (world k) s = Break PaymentDetected s"
    by (simp add: loop_body_payment)
  from session_at_run [OF assms(1)] have "step s = k"
    and "control_loop P goal world = for_loop P goal world s" by auto
  with body assms(2) have "control_loop P goal world
      = \<lparr>reason = PaymentDetected, iterations = k + 1, final = s\<rparr>"
    using for_loop_Break [of s P goal world PaymentDetected s] by simp
  with pay body show ?thesis by simp
qed

theorem payment_page_stops_witness:
  "session_at example_platform ''Book a hotel'' (\<lambda>k. scene checkout_title wait_reply) 0
     = Some new_session
   \<and> 0 < MAX_LLM_STEPS
   \<and> snd (get_page_elements (page_evaluate (page (scene checkout_title wait_reply)))) \<noteq> []
   \<and> ''checkout'' \<in> set payment_keywords
   \<and> str_in ''checkout'' (lower (''https://www.booking.com/'' @ '' '' @ checkout_title))
   \<and> is_payment_page ''https://www.booking.com/'' checkout_title
   \<and> control_loop example_platform ''Book a hotel'' (\<lambda>k. scene checkout_title wait_reply)
       = \<lparr>reason = PaymentDetected, iterations = 1, final = new_session\<rparr>"
  using payment_page_stops [of example_platform "''Book a hotel''"
      "\<lambda>k. scene checkout_title wait_reply" 0 new_session
      "''https://www.booking.com/''" checkout_title "''checkout''"]
    checkout_keyword
  by (simp add: MAX_LLM_STEPS_def scene_extraction payment_keywords_def scene_url scene_title)

text \<open>
  C4.  A wait action is a dictionary whose \<open>action\<close> field is the string \<open>wait\<close>.  When a run
  reaches iteration \<open>k1\<close>, the iterations \<open>k1 < k2 < k3\<close> (all within the budget) each execute
  a wait action and every iteration between them extracts nothing (so that no other action is
  executed between the three waits), the loop ends with reason repeated-wait-abort and with
  the wait counter at three, in exactly the iteration whose wait is the third in a row: in
  iteration \<open>k3\<close> (after \<open>k3 + 1\<close> iterations) when the counter was zero on entering \<open>k1\<close>, in
  \<open>k2\<close> when it was one, in \<open>k1\<close> when it was two.  In every case that is at most \<open>k3 + 1\<close>
  iterations, within the step budget instead of by exhausting it.  For one iteration: an
  executed wait below the threshold continues with the counter one higher, an executed wait
  that reaches the threshold breaks the loop, and every executed action that is not a wait (a
  click, say) continues with the counter at zero; in each case the action is appended to the
  history and nothing else of the session changes.
\<close>

theorem three_waits_abort:
  "(session_at P goal world k1 = Some s \<and> k1 < k2 \<and> k2 < k3 \<and> k3 < MAX_LLM_STEPS
      \<and> (\<forall>j\<in>{k1, k2, k3}. \<forall>t. session_at P goal world j = Some t \<longrightarrow>
            (\<exists>a. executed P goal (world j) t = Some a \<and> is_wait a))
      \<and> (\<forall>j. k1 < j \<and> j < k3 \<and> j \<noteq> k2 \<longrightarrow> nothing_extracted (world j))
      \<longrightarrow> reason (control_loop P goal world) = RepeatedWaitAbort
          \<and> iterations (control_loop P goal world)
              = (if waits s = 0 then k3 + 1 else if waits s = 1 then k2 + 1 else k1 + 1)
          \<and> iterations (control_loop P goal world) \<le> k3 + 1
          \<and> k3 + 1 \<le> MAX_LLM_STEPS
          \<and> waits (final (control_loop P goal world)) = 3)
   \<and> (executed P goal w t = Some a \<and> is_wait a \<and> waits t + 1 < 3 \<longrightarrow>
        loop_body P goal w t
          = Continue (t\<lparr>history := history t @ [history_line P (step t) a],
                         waits := waits t + 1\<rparr>))
   \<and> (executed P goal w t = Some a \<and> is_wait a \<and> 3 \<le> waits t + 1 \<longrightarrow>
        loop_body P goal w t
          = Break RepeatedWaitAbort
              (t\<lparr>history := history t @ [history_line P (step t) a], waits := waits t + 1\<rparr>))
   \<and> (executed P goal w t = Some a \<and> \<not> is_wait a \<longrightarrow>
        loop_body P goal w t
          = Continue (t\<lparr>history := history t @ [history_line P (step t) a], waits := 0\<rparr>))"
proof (intro conjI impI)
  assume h: "session_at P goal world k1 = Some s \<and> k1 < k2 \<and> k2 < k3 \<and> k3 < MAX_LLM_STEPS
      \<and> (\<forall>j\<in>{k1, k2, k3}. \<forall>t. session_at P goal world j = Some t \<longrightarrow>
            (\<exists>a. executed P goal (world j) t = Some a \<and> is_wait a))
      \<and> (\<forall>j. k1 < j \<and> j < k3 \<and> j \<noteq> k2 \<longrightarrow> nothing_extracted (world j))"
  then have r: "reason (control_loop P goal world) = RepeatedWaitAbort
    \<and> iterations (control_loop P goal world)
        = (if waits s = 0 then k3 + 1 else if waits s = 1 then k2 + 1 else k1 + 1)
    \<and> waits (final (control_loop P goal world)) = 3"
    using three_waits_run [of P goal world k1 s k2 k3] by blast
  from r show "reason (control_loop P goal world) = RepeatedWaitAbort" by simp
  from r show "iterations (control_loop P goal world)
        = (if waits s = 0 then k3 + 1 else if waits s = 1 then k2 + 1 else k1 + 1)" by simp
  from r h show "iterations (control_loop P goal world) \<le> k3 + 1" by simp
  from h show "k3 + 1 \<le> MAX_LLM_STEPS" by simp
  from r show "waits (final (control_loop P goal world)) = 3" by simp
next
  assume "executed P goal w t = Some a \<and> is_wait a \<and> waits t + 1 < 3"
  then show "loop_body P goal w t
          = Continue (t\<lparr>history := history t @ [history_line P (step t) a],
                         waits := waits t + 1\<rparr>)"
    by (simp add: loop_body_executed)
next
  assume "executed P goal w t = Some a \<and> is_wait a \<and> 3 \<le> waits t + 1"
  then show "loop_body P goal w t
          = Break RepeatedWaitAbort
              (t\<lparr>history := history t @ [history_line P (step t) a], waits := waits t + 1\<rparr>)"
    by (simp add: loop_body_executed)
next
  assume "executed P goal w t = Some a \<and> \<not> is_wait a"
  then show "loop_body P goal w t
          = Continue (t\<lparr>history := history t @ [history_line P (step t) a], waits := 0\<rparr>)"
    by (simp add: loop_body_executed)
qed

theorem three_waits_abort_witness:
  "executed example_platform ''Book a hotel'' (scene ''Hotels'' wait_reply) new_session
     = Some wait_action
   \<and> is_wait wait_action
   \<and> nothing_extracted (wait_blank_wait_wait 1)
   \<and> reason (control_loop example_platform ''Book a hotel'' wait_blank_wait_wait)
       = RepeatedWaitAbort
   \<and> iterations (control_loop example_platform ''Book a hotel'' wait_blank_wait_wait) = 4
   \<and> waits (final (control_loop example_platform ''Book a hotel'' wait_blank_wait_wait)) = 3
   \<and> loop_body example_platform ''Book a hotel'' (scene ''Hotels'' wait_reply) new_session
       = Continue (new_session\<lparr>history := [history_line example_platform 0 wait_action],
                                waits := 1\<rparr>)
   \<and> loop_body example_platform ''Book a hotel'' (scene ''Hotels'' wait_reply)
        (new_session\<lparr>waits := 2\<rparr>)
       = Break RepeatedWaitAbort
           (new_session\<lparr>history := [history_line example_platform 0 wait_action], waits := 3\<rparr>)
   \<and> executed example_platform ''Book a hotel'' (scene ''Hotels'' scroll_reply)
        (new_session\<lparr>waits := 2\<rparr>) = Some scroll_action
   \<and> \<not> is_wait scroll_action
   \<and> loop_body example_platform ''Book a hotel'' (scene ''Hotels'' scroll_reply)
        (new_session\<lparr>waits := 2\<rparr>)
       = Continue (new_session\<lparr>history := [history_line example_platform 0 scroll_action],
                                waits := 0\<rparr>)"
proof -
  have s0: "session_at example_platform ''Book a hotel'' wait_blank_wait_wait 0 = Some new_session"
    by simp
  have k: "(0::nat) < 2" "(2::nat) < 3" "3 < MAX_LLM_STEPS"
    by (simp_all add: MAX_LLM_STEPS_def)
  have b: "nothing_extracted (wait_blank_wait_wait 1)"
    by (simp add: wait_blank_wait_wait_def blank_scene_nothing)
  have e1: "executed example_platform ''Book a hotel'' (scene ''Hotels'' wait_reply) new_session
      = Some wait_action"
    by (simp add: scene_executed_wait hotels_no_payment)
  have e1': "executed example_platform ''Book a hotel'' (scene ''Hotels'' wait_reply)
      (new_session\<lparr>waits := 2\<rparr>) = Some wait_action"
    by (simp add: scene_executed_wait hotels_no_payment)
  have e2: "executed example_platform ''Book a hotel'' (scene ''Hotels'' scroll_reply)
      (new_session\<lparr>waits := 2\<rparr>) = Some scroll_action"
    by (simp add: scene_executed_scroll hotels_no_payment)
  from three_waits_abort [of example_platform "''Book a hotel''" wait_blank_wait_wait 0
      new_session 2 3 "scene ''Hotels'' wait_reply" new_session wait_action]
    s0 k wait_blank_wait_wait_waits [of "''Book a hotel''"] wait_blank_wait_wait_skips e1
    is_wait_examples
  have first: "reason (control_loop example_platform ''Book a hotel'' wait_blank_wait_wait)
       = RepeatedWaitAbort
     \<and> iterations (control_loop example_platform ''Book a hotel'' wait_blank_wait_wait) = 4
     \<and> waits (final (control_loop example_platform ''Book a hotel'' wait_blank_wait_wait)) = 3
     \<and> loop_body example_platform ''Book a hotel'' (scene ''Hotels'' wait_reply) new_session
       = Continue (new_session\<lparr>history := [history_line example_platform 0 wait_action],
                                waits := 1\<rparr>)"
    by (simp add: new_session_def del: session_at.simps)
  from three_waits_abort [of example_platform "''Book a hotel''" wait_blank_wait_wait 0
      new_session 2 3 "scene ''Hotels'' wait_reply" "new_session\<lparr>waits := 2\<rparr>" wait_action]
    e1' is_wait_examples
  have second: "loop_body example_platform ''Book a hotel'' (scene ''Hotels'' wait_reply)
        (new_session\<lparr>waits := 2\<rparr>)
       = Break RepeatedWaitAbort
           (new_session\<lparr>history := [history_line example_platform 0 wait_action], waits := 3\<rparr>)"
    by (simp add: new_session_def del: session_at.simps)
  from three_waits_abort [of example_platform "''Book a hotel''" wait_blank_wait_wait 0
      new_session 2 3 "scene ''Hotels'' scroll_reply" "new_session\<lparr>waits := 2\<rparr>" scroll_action]
    e2 is_wait_examples
  have third: "loop_body example_platform ''Book a hotel'' (scene ''Hotels'' scroll_reply)
        (new_session\<lparr>waits := 2\<rparr>)
       = Continue (new_session\<lparr>history := [history_line example_platform 0 scroll_action],
                                waits := 0\<rparr>)"
    by (simp add: new_session_def del: session_at.simps)
  from first second third b e1 e2 is_wait_examples show ?thesis by simp
qed

text \<open>
  C5, as the claim states it, fails for the wait counter: in the run that waits in its first
  iteration and scrolls in its second, the counter is 1 at the start of the second iteration
  and 0 at the start of the third.
\<close>

theorem wait_counter_decreases:
  "map_option waits (session_at example_platform ''Book a hotel'' wait_then_scroll 1) = Some 1
   \<and> map_option waits (session_at example_platform ''Book a hotel'' wait_then_scroll 2) = Some 0"
proof -
  obtain s1 s2
    where a: "session_at example_platform ''Book a hotel'' wait_then_scroll (Suc 0) = Some s1"
      "waits s1 = 1"
      "session_at example_platform ''Book a hotel'' wait_then_scroll (Suc (Suc 0)) = Some s2"
      "waits s2 = 0"
    using wait_then_scroll_sessions [of "''Book a hotel''"] by blast
  have "session_at example_platform ''Book a hotel'' wait_then_scroll 1 = Some s1"
    using a(1) by (simp only: One_nat_def)
  moreover have "session_at example_platform ''Book a hotel'' wait_then_scroll 2 = Some s2"
    using a(3) by (simp only: numeral_2_eq_2)
  ultimately show ?thesis using a(2,4) by (simp del: session_at.simps)
qed

text \<open>
  C5, amended.  A session starts with both counters at zero.  From the start of one
  iteration to the start of the next the step counter grows by exactly one, and the wait
  counter stays, grows by one, or is set back to zero; it is set back only by an executed
  action that is not a wait.
\<close>

theorem counters_between_iterations:
  assumes "session_at P goal world k = Some s" and "session_at P goal world (Suc k) = Some s'"
  shows "step s = k \<and> step s' = Suc k
    \<and> (waits s' = waits s \<or> waits s' = waits s + 1
        \<or> (waits s' = 0 \<and> (\<exists>a. executed P goal (world k) s = Some a \<and> \<not> is_wait a)))
    \<and> step new_session = 0 \<and> waits new_session = 0"
proof -
  from assms obtain s1 where body: "loop_body P goal (world k) s = Continue s1"
    and s': "s' = s1\<lparr>step := k + 1\<rparr>"
    by (auto split: if_splits iteration.splits)
  from session_at_run [OF assms(1)] have st: "step s = k" by simp
  from loop_body_Continue [OF body] consider "s1 = s"
    | a where "executed P goal (world k) s = Some a" by blast
  then have "waits s1 = waits s \<or> waits s1 = waits s + 1
        \<or> (waits s1 = 0 \<and> (\<exists>a. executed P goal (world k) s = Some a \<and> \<not> is_wait a))"
  proof cases
    case 1
    then show ?thesis by simp
  next
    case 2
    with body show ?thesis
      by (auto simp: loop_body_executed split: if_splits)
  qed
  with st s' show ?thesis by (simp add: new_session_def)
qed

theorem counters_between_iterations_witness:
  "map_option waits (session_at example_platform ''Book a hotel'' wait_then_scroll 0) = Some 0
   \<and> map_option waits (session_at example_platform ''Book a hotel'' wait_then_scroll 1) = Some 1
   \<and> map_option step (session_at example_platform ''Book a hotel'' wait_then_scroll 0) = Some 0
   \<and> map_option step (session_at example_platform ''Book a hotel'' wait_then_scroll 1) = Some 1"
proof -
  obtain s1
    where s1: "session_at example_platform ''Book a hotel'' wait_then_scroll (Suc 0) = Some s1"
      and w1: "waits s1 = 1"
    using wait_then_scroll_sessions [of "''Book a hotel''"] by auto
  have s0: "session_at example_platform ''Book a hotel'' wait_then_scroll 0 = Some new_session"
    by simp
  have "session_at example_platform ''Book a hotel'' wait_then_scroll 1 = Some s1"
    using s1 by (simp only: One_nat_def)
  with counters_between_iterations [OF s0 s1] w1 s0 show ?thesis
    by (simp add: new_session_def del: session_at.simps)
qed

text \<open>
  C6, as the claim states it, fails: when the engine answers \<open>wait\<close> (an action other than
  \<open>done\<close>) in every iteration and no payment page is detected, the run ends after three
  iterations with reason repeated-wait-abort.
\<close>

theorem step_budget_not_reached:
  "decided example_platform ''Book a hotel'' (scene ''Hotels'' wait_reply) new_session
     = Inr (JObj wait_action)
   \<and> dict_get wait_action ''action'' (JStr ''wait'') \<noteq> JStr ''done''
   \<and> \<not> is_payment_page ''https://www.booking.com/'' ''Hotels''
   \<and> reason (control_loop example_platform ''Book a hotel'' (\<lambda>k. scene ''Hotels'' wait_reply))
       = RepeatedWaitAbort
   \<and> iterations (control_loop example_platform ''Book a hotel'' (\<lambda>k. scene ''Hotels'' wait_reply))
       = 3"
  using always_wait_run [OF hotels_no_payment, of "''Book a hotel''"]
  by (simp add: scene_decided strip_wait_reply decoder_wait hotels_no_payment
      wait_action_def dict_get_def)

text \<open>
  C6, amended.  No run starts more than \<open>MAX_LLM_STEPS\<close> = 20 iterations.  If every
  iteration the run reaches continues (nothing is extracted, or the engine's action is executed
  with the continue signal, so it is not \<open>done\<close>, no payment page was detected and nothing
  was raised, and it is not the third consecutive wait), the loop runs exactly 20 iterations
  and then ends by step-budget exhaustion.
\<close>

theorem step_budget:
  "iterations (control_loop P goal world) \<le> MAX_LLM_STEPS
   \<and> ((\<forall>k<MAX_LLM_STEPS. \<forall>s. session_at P goal world k = Some s \<longrightarrow>
          continues P goal (world k) s)
       \<longrightarrow> reason (control_loop P goal world) = StepBudgetExhausted
           \<and> iterations (control_loop P goal world) = MAX_LLM_STEPS)
   \<and> MAX_LLM_STEPS = 20"
  using continues_run [of P goal world] for_loop_iterations [of new_session P goal world]
  by (simp add: control_loop_def new_session_def MAX_LLM_STEPS_def)

theorem step_budget_witness:
  "continues example_platform ''Book a hotel'' (scene ''Hotels'' scroll_reply) new_session
   \<and> reason (control_loop example_platform ''Book a hotel'' (\<lambda>k. scene ''Hotels'' scroll_reply))
       = StepBudgetExhausted
   \<and> iterations (control_loop example_platform ''Book a hotel'' (\<lambda>k. scene ''Hotels'' scroll_reply))
       = 20"
  using step_budget [of example_platform "''Book a hotel''" "\<lambda>k. scene ''Hotels'' scroll_reply"]
  by (simp add: always_scroll_continues hotels_no_payment)

subsection \<open>Exceptions that leave the engine and the executor\<close>

lemma ollama_decided_reply:
  "GROQ_API_KEY P = [] \<Longrightarrow> ollama_api w = ollama_says reply \<Longrightarrow> strip reply = reply \<Longrightarrow>
   decided P goal w s = parse_reply (json_loads P) reply"
  by (simp add: decided_def ask_llm_action_def call_llm_def try_ollama_def
      ollama_says_def dict_get_def Let_def)

lemma loop_body_engine_raises:
  "reaches_decision w \<Longrightarrow> decided P goal w s = Inl e \<Longrightarrow>
   loop_body P goal w s = Break (AutomationError e) s"
  by (simp add: loop_body_def reaches_decision_def decided_def case_prod_beta Let_def)

text \<open>
  C3.  The code does not keep the promise that the parser never raises.  The handler around
  the first \<open>json.loads\<close> names \<open>JSONDecodeError\<close> alone, so any other exception raised on
  the whole reply leaves \<open>_ask_llm_action\<close>.  On a reply of a hundred thousand opening
  brackets \<open>json.loads\<close> raises \<open>RecursionError\<close>: the parser raises it where the claim
  promises the \<open>Parse error\<close> wait action, the engine raises it when Ollama sends that reply
  (for every goal, page and history), and the run ends in its first iteration through the
  handler around the loop.  The same brackets inside the braced piece of a reply that is no
  JSON meet the bare \<open>except\<close> around the second \<open>json.loads\<close>, which swallows the
  \<open>RecursionError\<close>: there the parser returns the \<open>Parse error\<close> action, as promised.
\<close>

theorem parse_reply_raises:
  "example_decoder deep_reply = Inl RecursionError
   \<and> parse_reply example_decoder deep_reply = Inl RecursionError
   \<and> ask_llm_action example_decoder [] unreachable (ollama_says deep_reply)
        elements_text goal url title hist = Inl RecursionError
   \<and> loop_body example_platform goal (scene ''Hotels'' deep_reply) new_session
       = Break (AutomationError RecursionError) new_session
   \<and> control_loop example_platform goal (\<lambda>k. scene ''Hotels'' deep_reply)
       = \<lparr>reason = AutomationError RecursionError, iterations = 1, final = new_session\<rparr>
   \<and> example_decoder deep_prose = Inl JSONDecodeError
   \<and> re_search deep_prose = Some deep_object
   \<and> example_decoder deep_object = Inl RecursionError
   \<and> parse_reply example_decoder deep_prose = Inr parse_error"
proof -
  have p: "parse_reply example_decoder deep_reply = Inl RecursionError"
    by (simp add: parse_reply_def decoder_deep)
  have a: "ask_llm_action example_decoder [] unreachable (ollama_says deep_reply)
        elements_text goal url title hist = Inl RecursionError"
    by (simp add: ask_llm_action_def call_llm_def try_ollama_def ollama_says_def dict_get_def
        Let_def strip_deep_reply p)
  have d: "decided example_platform goal (scene ''Hotels'' deep_reply) new_session
      = Inl RecursionError"
    using ollama_decided_reply [of example_platform "scene ''Hotels'' deep_reply" deep_reply
        goal new_session]
    by (simp add: example_platform_def scene_def strip_deep_reply p)
  have b: "loop_body example_platform goal (scene ''Hotels'' deep_reply) new_session
       = Break (AutomationError RecursionError) new_session"
    by (rule loop_body_engine_raises [OF scene_reaches_decision [OF hotels_no_payment] d])
  have c: "control_loop example_platform goal (\<lambda>k. scene ''Hotels'' deep_reply)
       = \<lparr>reason = AutomationError RecursionError, iterations = 1, final = new_session\<rparr>"
    using b by (simp add: control_loop_def for_loop_Break new_session_def MAX_LLM_STEPS_def)
  have s: "parse_reply example_decoder deep_prose = Inr parse_error"
    by (simp add: parse_reply_def decoder_deep_prose re_search_deep_prose decoder_deep_object)
  from p a b c s show ?thesis
    by (simp add: decoder_deep decoder_deep_prose re_search_deep_prose decoder_deep_object)
qed

text \<open>
  C10.  The code does not give the continue signal for every action other than \<open>done\<close>.
  The \<open>scroll\<close> and \<open>press_enter\<close> branches call the page outside any \<open>try\<close>: on a page
  whose window has been closed, where every call raises, the executor raises on a \<open>scroll\<close>
  and on a \<open>press_enter\<close> action (neither has an element field) after the one call it made,
  and the run ends in that iteration through the handler around the loop, with no \<open>done\<close>
  action.  On the same page a \<open>click\<close> on element 0 gives the continue signal: its failing
  call and the failing Tab of the recovery are both inside a \<open>try\<close>.
\<close>

theorem unguarded_page_calls_raise:
  "map_of scroll_action ''element'' = None
   \<and> dict_get scroll_action ''action'' (JStr ''wait'') = JStr ''scroll''
   \<and> execute_action closed_page scroll_action [search_element]
       = ([MouseWheel 0 400], Inl PlaywrightError)
   \<and> map_of enter_action ''element'' = None
   \<and> dict_get enter_action ''action'' (JStr ''wait'') = JStr ''press_enter''
   \<and> execute_action closed_page enter_action [search_element]
       = ([KeyPress ''Enter''], Inl PlaywrightError)
   \<and> execute_action closed_page click_first [search_element]
       = ([Click (ByTag ''button''), KeyPress ''Tab''], Inr True)
   \<and> loop_body example_platform ''Book a hotel'' closed_scene new_session
       = Break (AutomationError PlaywrightError)
           (new_session\<lparr>history := [history_line example_platform 0 scroll_action]\<rparr>)
   \<and> control_loop example_platform ''Book a hotel'' (\<lambda>k. closed_scene)
       = \<lparr>reason = AutomationError PlaywrightError, iterations = 1,
          final = new_session\<lparr>history := [history_line example_platform 0 scroll_action]\<rparr>\<rparr>"
proof -
  have ex: "execute_action closed_page scroll_action [search_element]
       = ([MouseWheel 0 400], Inl PlaywrightError)"
    by (simp add: scroll_action_def dict_get_def execute_action_def closed_page_def
        example_page_def)
  have en: "execute_action closed_page enter_action [search_element]
       = ([KeyPress ''Enter''], Inl PlaywrightError)"
    by (simp add: enter_action_def dict_get_def execute_action_def closed_page_def
        example_page_def)
  have cl: "execute_action closed_page click_first [search_element]
       = ([Click (ByTag ''button''), KeyPress ''Tab''], Inr True)"
    by (simp add: click_first_def dict_get_def execute_action_def closed_page_def
        example_page_def interact_def build_locator_def search_element_def Let_def)
  have gpe: "get_page_elements (page_evaluate (page closed_scene))
      = get_page_elements (Inr example_query)"
    by (simp add: closed_scene_def closed_page_def example_page_def)
  have pg: "page closed_scene = closed_page"
    by (simp add: closed_scene_def)
  have gpe': "get_page_elements (page_evaluate closed_page)
      = get_page_elements (Inr example_query)"
    by (simp add: closed_page_def example_page_def)
  have loc: "read_location (page closed_scene) = (''https://www.booking.com/'', ''Hotels'')"
    by (simp add: closed_scene_def closed_page_def example_page_def read_location_def)
  have r: "reaches_decision closed_scene"
    unfolding reaches_decision_def gpe loc
    by (simp add: example_extraction hotels_no_payment)
  have d: "decided example_platform ''Book a hotel'' closed_scene new_session
      = Inr (JObj scroll_action)"
    by (rule ollama_decided [where reply = scroll_reply])
      (simp_all add: example_platform_def closed_scene_def strip_scroll_reply decoder_scroll)
  have "loop_body example_platform ''Book a hotel'' closed_scene new_session
       = Break (AutomationError PlaywrightError)
           (new_session\<lparr>history := history new_session
              @ [history_line example_platform (step new_session) scroll_action]\<rparr>)"
    by (rule loop_body_raises [OF r d]) (simp add: gpe' pg example_extraction ex)
  then have b: "loop_body example_platform ''Book a hotel'' closed_scene new_session
       = Break (AutomationError PlaywrightError)
           (new_session\<lparr>history := [history_line example_platform 0 scroll_action]\<rparr>)"
    by (simp add: new_session_def)
  have c: "control_loop example_platform ''Book a hotel'' (\<lambda>k. closed_scene)
       = \<lparr>reason = AutomationError PlaywrightError, iterations = 1,
          final = new_session\<lparr>history := [history_line example_platform 0 scroll_action]\<rparr>\<rparr>"
    using b by (simp add: control_loop_def for_loop_Break new_session_def MAX_LLM_STEPS_def)
  from ex en cl b c show ?thesis
    by (simp add: scroll_action_def enter_action_def dict_get_def)
qed

end
